theory Spec2Isabelle
  imports Main "HOL-Library.Word"
begin

section \<open>Strings and paths of the Python runtime\<close>

text \<open>
  Python strings are modelled as \<open>string\<close>; a character is a code point below 256.
  \<open>str.lower\<close> on that range maps \<open>A\<close>..\<open>Z\<close> and the Latin-1 capitals
  (192..222 without the multiplication sign 215) 32 code points up.
\<close>

definition lower_char :: "char \<Rightarrow> char" where
  "lower_char c =
     (let n = (of_char c :: nat)
      in if (65 \<le> n \<and> n \<le> 90) \<or> (192 \<le> n \<and> n \<le> 222 \<and> n \<noteq> 215)
         then char_of (n + 32) else c)"

definition lower :: "string \<Rightarrow> string" where
  "lower s = map lower_char s"

text \<open>\<open>s.startswith(p)\<close> and \<open>s.endswith(p)\<close>.\<close>

definition startswith :: "string \<Rightarrow> string \<Rightarrow> bool" where
  "startswith s p = (take (length p) s = p)"

definition endswith :: "string \<Rightarrow> string \<Rightarrow> bool" where
  "endswith s p = (length p \<le> length s \<and> drop (length s - length p) s = p)"

text \<open>
  \<open>s.rfind(c)\<close>: the index of the last occurrence of \<open>c\<close>, or \<open>-1\<close>. The scan
  goes left to right; \<open>i\<close> is the index of the next character and \<open>found\<close> the last
  match so far.
\<close>

fun rfind_from :: "string \<Rightarrow> char \<Rightarrow> int \<Rightarrow> int \<Rightarrow> int" where
  "rfind_from [] c i found = found"
| "rfind_from (x # xs) c i found = rfind_from xs c (i + 1) (if x = c then i else found)"

definition rfind :: "string \<Rightarrow> char \<Rightarrow> int" where
  "rfind s c = rfind_from s c 0 (-1)"

text \<open>\<open>s.count(c)\<close> for a one-character pattern.\<close>

definition count_char :: "string \<Rightarrow> char \<Rightarrow> int" where
  "count_char s c = int (length (filter (\<lambda>x. x = c) s))"

text \<open>
  \<open>s.split("/")\<close>: the pieces between separators; the empty string gives one empty
  piece, and two adjacent separators give an empty piece between them.
\<close>

fun split_sep :: "string \<Rightarrow> string list" where
  "split_sep [] = [[]]"
| "split_sep (c # cs) =
     (if c = CHR ''/'' then [] # split_sep cs
      else (case split_sep cs of
              [] \<Rightarrow> [[c]]
            | piece # pieces \<Rightarrow> (c # piece) # pieces))"

text \<open>
  \<open>os.path.basename\<close> (posixpath):
  \<^verbatim>\<open>i = p.rfind('/') + 1; return p[i:]\<close>
\<close>

definition basename :: "string \<Rightarrow> string" where
  "basename p = drop (nat (rfind p (CHR ''/'') + 1)) p"

text \<open>
  \<open>os.path.join\<close> (posixpath) for two arguments:
  \<^verbatim>\<open>
  if b.startswith('/'): path = b
  elif not path or path.endswith('/'): path += b
  else: path += '/' + b
  \<close>
  A call with more arguments is the same step folded from the left.
\<close>

definition join :: "string \<Rightarrow> string \<Rightarrow> string" where
  "join a b =
     (if startswith b ''/'' then b
      else if a = [] \<or> endswith a ''/'' then a @ b
      else a @ ''/'' @ b)"

text \<open>
  \<open>os.path.splitext\<close> (genericpath.\_splitext with \<open>sep = '/'\<close>, no altsep,
  \<open>extsep = '.'\<close>):
  \<^verbatim>\<open>
  sepIndex = p.rfind(sep)
  dotIndex = p.rfind(extsep)
  if dotIndex > sepIndex:
      filenameIndex = sepIndex + 1
      while filenameIndex < dotIndex:
          if p[filenameIndex:filenameIndex+1] != extsep:
              return p[:dotIndex], p[dotIndex:]
          filenameIndex += 1
  return p, p[:0]
  \<close>
\<close>

function splitext_loop :: "string \<Rightarrow> nat \<Rightarrow> nat \<Rightarrow> string \<times> string" where
  "splitext_loop p filenameIndex dotIndex =
     (if filenameIndex < dotIndex then
        (if take 1 (drop filenameIndex p) \<noteq> ''.''
         then (take dotIndex p, drop dotIndex p)
         else splitext_loop p (Suc filenameIndex) dotIndex)
      else (p, []))"
  by pat_completeness auto
termination
  by (relation "measure (\<lambda>(p, filenameIndex, dotIndex). dotIndex - filenameIndex)") auto

declare splitext_loop.simps [simp del]

definition splitext :: "string \<Rightarrow> string \<times> string" where
  "splitext p =
     (let sepIndex = rfind p (CHR ''/'');
          dotIndex = rfind p (CHR ''.'')
      in if dotIndex > sepIndex
         then splitext_loop p (nat (sepIndex + 1)) (nat dotIndex)
         else (p, []))"

section \<open>The classifier table\<close>

definition SUPPORTED_EXTENSIONS_TO_CATEGORY :: "(string \<times> string) list" where
  "SUPPORTED_EXTENSIONS_TO_CATEGORY =
    [(''.vx'', ''Viva''),
     (''.vxh'', ''Viva''),
     (''.v'', ''VerilogVHDL''),
     (''.vh'', ''VerilogVHDL''),
     (''.vhdl'', ''VerilogVHDL''),
     (''.va'', ''VerilogAnalog''),
     (''.c'', ''CPP''),
     (''.cpp'', ''CPP''),
     (''.h'', ''CPP''),
     (''.hpp'', ''CPP''),
     (''.py'', ''Python''),
     (''.config'', ''Config''),
     (''.mk'', ''Makefile''),
     (''makefile'', ''Makefile''),
     (''makeppfile'', ''Makefile''),
     (''.pm'', ''Perl''),
     (''.pl'', ''Perl''),
     (''.tcl'', ''Tcl''),
     (''.spec'', ''Spec''),
     (''.yaml'', ''Yaml''),
     (''.yml'', ''Yaml''),
     (''.sp'', ''Spice''),
     (''.cir'', ''Spice''),
     (''.cmd'', ''Spice''),
     (''.spf'', ''Spice''),
     (''.spice'', ''Spice''),
     (''.txt'', ''text''),
     (''.json'', ''text''),
     (''.xml'', ''text''),
     (''.html'', ''text''),
     (''.pdf'', ''text''),
     (''.md'', ''text''),
     ('''', ''text'')]"

text \<open>The dictionary read: \<open>k in d\<close> is \<open>table_get k \<noteq> None\<close>, \<open>d[k]\<close> its value.\<close>

definition table_get :: "string \<Rightarrow> string option" where
  "table_get k = map_of SUPPORTED_EXTENSIONS_TO_CATEGORY k"

text \<open>
  Lines 56--70 of \<open>convert_file_to_json\<close>: the lower-cased extension and the
  category, or \<open>None\<close> where the function returns \<open>None\<close> for an unsupported file.
  \<^verbatim>\<open>
  filename = os.path.basename(input_fp)
  filename_no_ext, ext = os.path.splitext(filename)
  filename_no_ext = filename_no_ext.lower()
  ext = ext.lower()
  if ext not in SUPPORTED_EXTENSIONS_TO_CATEGORY:
      if filename_no_ext not in SUPPORTED_EXTENSIONS_TO_CATEGORY:
          return None
      category = SUPPORTED_EXTENSIONS_TO_CATEGORY[filename_no_ext]
  else:
      category = SUPPORTED_EXTENSIONS_TO_CATEGORY[ext]
  \<close>
\<close>

definition resolve_category :: "string \<Rightarrow> (string \<times> string) option" where
  "resolve_category input_fp =
     (let filename = basename input_fp;
          (filename_no_ext0, ext0) = splitext filename;
          filename_no_ext = lower filename_no_ext0;
          ext = lower ext0
      in case table_get ext of
           None \<Rightarrow>
             (case table_get filename_no_ext of
                None \<Rightarrow> None
              | Some category \<Rightarrow> Some (ext, category))
         | Some category \<Rightarrow> Some (ext, category))"

section \<open>Files, collaborators and the state of a run\<close>

type_synonym bytes = "8 word list"

text \<open>
  A directory tree as \<open>os.scandir\<close> lists it: a file has a name, a flag telling
  whether it can be opened for reading, and its bytes; a directory has a name and its
  entries in listing order.
\<close>

datatype entry =
    File string bool bytes
  | Dir string "entry list"

fun entry_name :: "entry \<Rightarrow> string" where
  "entry_name (File n r b) = n"
| "entry_name (Dir n es) = n"

fun is_dir :: "entry \<Rightarrow> bool" where
  "is_dir (File n r b) = False"
| "is_dir (Dir n es) = True"

text \<open>
  The name of a file, as a directory listing gives it, is one path component: it holds
  no separator.
\<close>

fun file_names_ok :: "entry \<Rightarrow> bool" where
  "file_names_ok (File n r b) = (CHR ''/'' \<notin> set n)"
| "file_names_ok (Dir n es) = list_all file_names_ok es"

datatype error =
    FileNotFoundError
  | OSError
  | UnicodeDecodeError
  | LookupError

text \<open>The dictionary returned by \<open>convert_file_to_json\<close>.\<close>

record document =
  doc_id :: string
  doc_text :: string
  file_extension :: string
  category :: string
  line_count :: int
  size_in_bytes :: int
  doc_path :: string

text \<open>
  What the code calls and the repository does not hold:
  \<^item> \<open>detect\<close>: \<open>chardet.detect(content)["encoding"]\<close>, a name or \<open>None\<close>;
  \<^item> \<open>decode\<close>: \<open>content.decode(encoding)\<close>, the text or the exception raised;
  \<^item> \<open>dumps\<close>: \<open>json.dumps\<close>;
  \<^item> \<open>git_clone\<close>: \<open>os.system("git clone https://github.com/{url} {clone_dir}")\<close>,
    the exit status and the directory tree left at \<open>clone_dir\<close>, if any.
\<close>

record collab =
  detect :: "bytes \<Rightarrow> string option"
  decode :: "string \<Rightarrow> bytes \<Rightarrow> error + string"
  dumps :: "document \<Rightarrow> string"
  git_clone :: "string \<Rightarrow> string \<Rightarrow> int \<times> entry list option"

text \<open>
  The state of a run:
  \<^item> \<open>manifests\<close>: the source-links files that exist, each with the identifiers
    \<open>pd.read_json(..., lines=True)[0].tolist()\<close> reads from it;
  \<^item> \<open>repos\<close>: the entries of \<open>clone_root_dir\<close>, in \<open>os.listdir\<close> order;
  \<^item> \<open>jsonl_files\<close>: the files of \<open>jsonl_dir\<close>, by path, with their content;
  \<^item> \<open>opened\<close>: the paths opened for reading so far;
  \<^item> \<open>cloned\<close>: the clone commands run so far, as (url, clone_dir).
\<close>

record state =
  manifests :: "string \<rightharpoonup> string list"
  repos :: "entry list"
  jsonl_files :: "string \<rightharpoonup> string"
  opened :: "string list"
  cloned :: "(string \<times> string) list"

section \<open>The document builder\<close>

text \<open>
  \<open>convert_file_to_json(input_fp)\<close>, for the file found at \<open>input_fp\<close> with the
  given read permission and bytes. \<open>Inr None\<close> is the return value \<open>None\<close>, \<open>Inl\<close>
  an exception that leaves the function. \<open>os.path.getsize\<close> is the number of bytes
  of the file.
\<close>

definition convert_file_to_json ::
  "collab \<Rightarrow> string \<Rightarrow> bool \<Rightarrow> bytes \<Rightarrow> state \<Rightarrow> (error + document option) \<times> state" where
  "convert_file_to_json c input_fp readable content st =
     (case resolve_category input_fp of
        None \<Rightarrow> (Inr None, st)
      | Some (ext, cat) \<Rightarrow>
          if \<not> readable then (Inl OSError, st)
          else
            let st1 = st\<lparr>opened := opened st @ [input_fp]\<rparr>
            in (case detect c content of
                 None \<Rightarrow> (Inr None, st1)
               | Some encoding \<Rightarrow>
                   if encoding = [] then (Inr None, st1)
                   else
                     (case decode c encoding content of
                        Inl e \<Rightarrow>
                          if e = UnicodeDecodeError then (Inr None, st1) else (Inl e, st1)
                      | Inr txt \<Rightarrow>
                          (Inr (Some \<lparr>doc_id = input_fp,
                                      doc_text = txt,
                                      file_extension = ext,
                                      category = cat,
                                      line_count = count_char txt (CHR 0x0A) + 1,
                                      size_in_bytes = int (length content),
                                      doc_path = input_fp\<rparr>), st1))))"

text \<open>
  The files of a tree on which \<open>convert_file_to_json\<close> raises nothing: each can be
  opened, and decoding its bytes under the encoding detected for them, when one is
  detected, gives a text or \<open>UnicodeDecodeError\<close>.
\<close>

fun quiet_entry :: "collab \<Rightarrow> entry \<Rightarrow> bool" where
  "quiet_entry c (File n r b) =
     (r \<and> (case detect c b of
              None \<Rightarrow> True
            | Some encoding \<Rightarrow>
                encoding = [] \<or>
                (case decode c encoding b of
                   Inl e \<Rightarrow> e = UnicodeDecodeError
                 | Inr t \<Rightarrow> True)))"
| "quiet_entry c (Dir n es) = list_all (quiet_entry c) es"

section \<open>The repository walker and converter\<close>

text \<open>
  \<open>os.walk(top)\<close>, top-down, errors ignored, links not followed: for each directory
  its path, the names of its sub-directories and its other entries, then the walk of
  each sub-directory in listing order.
\<close>

fun walk :: "string \<Rightarrow> entry list \<Rightarrow> (string \<times> string list \<times> entry list) list" where
  "walk top_dir es =
     (top_dir, map entry_name (filter is_dir es), filter (\<lambda>e. \<not> is_dir e) es)
     # concat (map (\<lambda>e. case e of File n r b \<Rightarrow> []
                             | Dir n sub \<Rightarrow> walk (join top_dir n) sub) es)"

declare walk.simps [simp del]

text \<open>\<open>os.walk\<close> of a path that is not a directory yields nothing.\<close>

definition os_walk :: "string \<Rightarrow> entry \<Rightarrow> (string \<times> string list \<times> entry list) list" where
  "os_walk top_dir e = (case e of File n r b \<Rightarrow> [] | Dir n es \<Rightarrow> walk top_dir es)"

text \<open>\<open>any(part.startswith(".") for part in root.split(os.sep))\<close>\<close>

definition hidden_root :: "string \<Rightarrow> bool" where
  "hidden_root root = list_ex (\<lambda>part. startswith part ''.'') (split_sep root)"

text \<open>
  The loop \<open>for file in files\<close> (lines 129--139), appending to \<open>jsonl_docs\<close>.
  \<open>os.walk\<close> puts no directory in \<open>files\<close>; the equation for \<open>Dir\<close> only makes
  the function total.
\<close>

fun convert_files ::
  "collab \<Rightarrow> string \<Rightarrow> entry list \<Rightarrow> document list \<Rightarrow> state
     \<Rightarrow> (error + document list) \<times> state" where
  "convert_files c root [] jsonl_docs st = (Inr jsonl_docs, st)"
| "convert_files c root (Dir n es # files) jsonl_docs st =
     convert_files c root files jsonl_docs st"
| "convert_files c root (File file readable content # files) jsonl_docs st =
     (if startswith file ''.'' then convert_files c root files jsonl_docs st
      else
        let input_fp = join root file
        in case convert_file_to_json c input_fp readable content st of
             (Inl e, st1) \<Rightarrow> (Inl e, st1)
           | (Inr None, st1) \<Rightarrow> convert_files c root files jsonl_docs st1
           | (Inr (Some jsonl), st1) \<Rightarrow> convert_files c root files (jsonl_docs @ [jsonl]) st1)"

text \<open>The loop \<open>for root, _, files in os.walk(repo_dir)\<close> (lines 124--139).\<close>

fun convert_walk ::
  "collab \<Rightarrow> (string \<times> string list \<times> entry list) list \<Rightarrow> document list \<Rightarrow> state
     \<Rightarrow> (error + document list) \<times> state" where
  "convert_walk c [] jsonl_docs st = (Inr jsonl_docs, st)"
| "convert_walk c ((root, dirs, files) # rest) jsonl_docs st =
     (if hidden_root root then convert_walk c rest jsonl_docs st
      else
        case convert_files c root files jsonl_docs st of
          (Inl e, st1) \<Rightarrow> (Inl e, st1)
        | (Inr jsonl_docs1, st1) \<Rightarrow> convert_walk c rest jsonl_docs1 st1)"

text \<open>Lines 142--145: every document as \<open>json.dumps(doc) + "\n"\<close>, in list order.\<close>

definition serialize :: "collab \<Rightarrow> document list \<Rightarrow> string" where
  "serialize c jsonl_docs = concat (map (\<lambda>jsonl_doc. dumps c jsonl_doc @ [CHR 0x0A]) jsonl_docs)"

text \<open>
  \<open>convert_repo_to_jsonl(repo_dir, jsonl_dir)\<close>, where \<open>repo\<close> is what the file
  system holds at \<open>repo_dir\<close>.
\<close>

definition convert_repo_to_jsonl ::
  "collab \<Rightarrow> string \<Rightarrow> entry \<Rightarrow> string \<Rightarrow> state \<Rightarrow> (error + unit) \<times> state" where
  "convert_repo_to_jsonl c repo_dir repo jsonl_dir st =
     (let repo_name = basename repo_dir;
          output_fp = join jsonl_dir (repo_name @ ''.jsonl'')
      in if jsonl_files st output_fp \<noteq> None then (Inr (), st)
         else
           case convert_walk c (os_walk repo_dir repo) [] st of
             (Inl e, st1) \<Rightarrow> (Inl e, st1)
           | (Inr jsonl_docs, st1) \<Rightarrow>
               (Inr (), st1\<lparr>jsonl_files := (jsonl_files st1)(output_fp \<mapsto> serialize c jsonl_docs)\<rparr>))"

section \<open>The acquisition orchestrator\<close>

text \<open>
  \<open>os.path.exists(clone_dir)\<close> for \<open>clone_dir = os.path.join(clone_root_dir, repo_name)\<close>:
  an entry of that name is listed in the clone root, or the name is empty, \<open>.\<close> or
  \<open>..\<close>, which make \<open>clone_dir\<close> the clone root itself or its parent.
\<close>

definition clone_dir_exists :: "state \<Rightarrow> string \<Rightarrow> bool" where
  "clone_dir_exists st repo_name =
     (repo_name \<in> set [[], ''.'', ''..''] \<or> repo_name \<in> set (map entry_name (repos st)))"

text \<open>
  Lines 187--188: \<open>if limit: urls = urls[:limit]\<close>. \<open>None\<close> and \<open>0\<close> are falsy;
  a negative stop counts from the end of the list.
\<close>

definition apply_limit :: "int option \<Rightarrow> 'a list \<Rightarrow> 'a list" where
  "apply_limit limit urls =
     (case limit of
        None \<Rightarrow> urls
      | Some k \<Rightarrow>
          if k = 0 then urls
          else if 0 < k then take (nat k) urls
          else take (nat (int (length urls) + k)) urls)"

text \<open>The loop \<open>for url in urls\<close> (lines 191--203).\<close>

fun clone_repos :: "collab \<Rightarrow> string \<Rightarrow> string list \<Rightarrow> state \<Rightarrow> state" where
  "clone_repos c clone_root_dir [] st = st"
| "clone_repos c clone_root_dir (url # urls) st =
     (let repo_name = basename url;
          clone_dir = join clone_root_dir repo_name
      in if clone_dir_exists st repo_name then clone_repos c clone_root_dir urls st
         else
           let (exit_code, left) = git_clone c url clone_dir;
               st1 = st\<lparr>cloned := cloned st @ [(url, clone_dir)],
                        repos := (case left of
                                    None \<Rightarrow> repos st
                                  | Some tree \<Rightarrow> repos st @ [Dir repo_name tree])\<rparr>
           in if exit_code \<noteq> 0 then clone_repos c clone_root_dir urls st1
              else clone_repos c clone_root_dir urls st1)"

text \<open>The loop \<open>for repo in os.listdir(clone_root_dir)\<close> (lines 206--208).\<close>

fun convert_repos ::
  "collab \<Rightarrow> string \<Rightarrow> string \<Rightarrow> entry list \<Rightarrow> state \<Rightarrow> (error + unit) \<times> state" where
  "convert_repos c clone_root_dir jsonl_dir [] st = (Inr (), st)"
| "convert_repos c clone_root_dir jsonl_dir (repo # listing) st =
     (let repo_dir = join clone_root_dir (entry_name repo)
      in case convert_repo_to_jsonl c repo_dir repo jsonl_dir st of
           (Inl e, st1) \<Rightarrow> (Inl e, st1)
         | (Inr u, st1) \<Rightarrow> convert_repos c clone_root_dir jsonl_dir listing st1)"

text \<open>
  The directories of lines 176--180, from \<open>here = os.path.dirname(__file__)\<close>.
\<close>

definition github_root_dir :: "string \<Rightarrow> string" where
  "github_root_dir here = join (join (join here ''data'') ''raw'') ''github''"

definition clone_root_dir :: "string \<Rightarrow> string" where
  "clone_root_dir here = join (github_root_dir here) ''repos''"

definition jsonl_dir :: "string \<Rightarrow> string" where
  "jsonl_dir here = join (github_root_dir here) ''jsonl''"

text \<open>
  \<open>download_github_sources(source_links_file, limit)\<close>. The two
  \<open>os.makedirs(..., exist_ok=True)\<close> calls leave the state as it is: both
  directories are part of it from the start.
\<close>

definition download_github_sources ::
  "collab \<Rightarrow> string \<Rightarrow> string option \<Rightarrow> int option \<Rightarrow> state \<Rightarrow> (error + string) \<times> state" where
  "download_github_sources c here source_links_file limit st =
     (let source_links_file1 =
            (case source_links_file of
               None \<Rightarrow> join (join here ''sources'') ''github_repos.jsonl''
             | Some f \<Rightarrow> f)
      in case manifests st source_links_file1 of
           None \<Rightarrow> (Inl FileNotFoundError, st)
         | Some urls0 \<Rightarrow>
             let urls = apply_limit limit urls0;
                 st1 = clone_repos c (clone_root_dir here) urls st
             in case convert_repos c (clone_root_dir here) (jsonl_dir here) (repos st1) st1 of
                  (Inl e, st2) \<Rightarrow> (Inl e, st2)
                | (Inr u, st2) \<Rightarrow> (Inr (jsonl_dir here), st2))"

section \<open>An example run\<close>

text \<open>
  Collaborators for closed instances: the detector names \<open>ASCII\<close> for every buffer
  but the one-byte buffer \<open>0\<close>, the decoder rejects the byte \<open>0xFF\<close>, reads every
  other byte as its code point and knows no encoding but \<open>ASCII\<close>; \<open>git clone\<close> fails
  for \<open>octocat/missing\<close> and leaves one Python file otherwise.
\<close>

definition ex_collab :: collab where
  "ex_collab =
     \<lparr>detect = (\<lambda>b. if b = [0] then None else Some ''ASCII''),
      decode = (\<lambda>enc b. if enc \<noteq> ''ASCII'' then Inl LookupError
                         else if 0xFF \<in> set b then Inl UnicodeDecodeError
                         else Inr (map (\<lambda>w. char_of (unat w)) b)),
      dumps = (\<lambda>d. doc_id d @ '' '' @ category d),
      git_clone = (\<lambda>url dir. if url = ''octocat/missing'' then (128, None)
                              else (0, Some [File ''main.py'' True [0x78, 0x0A]]))\<rparr>"

text \<open>
  A second set of collaborators, with three behaviours of \<open>cchardet\<close> and the Python
  codecs: no encoding is named for the empty buffer; the buffer \<open>BF FE\<close> is named
  \<open>VISCII\<close>, for which the runtime has no codec, so that decoding raises
  \<open>LookupError\<close>; every other buffer is named \<open>UTF-8\<close> and decoded as such, for
  code points below 256 (one byte below \<open>80\<close>, or \<open>C2\<close> or \<open>C3\<close> and a continuation
  byte).
\<close>

fun ex_utf8 :: "bytes \<Rightarrow> string option" where
  "ex_utf8 [] = Some []"
| "ex_utf8 [b] = (if b < 0x80 then Some [char_of (unat b)] else None)"
| "ex_utf8 (b # b2 # bs) =
     (if b < 0x80 then map_option (\<lambda>t. char_of (unat b) # t) (ex_utf8 (b2 # bs))
      else if b = 0xC2 \<and> 0x80 \<le> b2 \<and> b2 \<le> 0xBF
        then map_option (\<lambda>t. char_of (unat b2) # t) (ex_utf8 bs)
      else if b = 0xC3 \<and> 0x80 \<le> b2 \<and> b2 \<le> 0xBF
        then map_option (\<lambda>t. char_of (unat b2 + 64) # t) (ex_utf8 bs)
      else None)"

definition ex_chardet :: collab where
  "ex_chardet =
     \<lparr>detect = (\<lambda>b. if b = [] then None
                     else if b = [0xBF, 0xFE] then Some ''VISCII''
                     else Some ''UTF-8''),
      decode = (\<lambda>enc b. if enc \<noteq> ''UTF-8'' then Inl LookupError
                         else (case ex_utf8 b of
                                 None \<Rightarrow> Inl UnicodeDecodeError
                               | Some t \<Rightarrow> Inr t)),
      dumps = (\<lambda>d. doc_id d @ '' '' @ category d),
      git_clone = (\<lambda>url dir. (0, Some [File ''main.py'' True [0x78, 0x0A]]))\<rparr>"

definition ex_state :: state where
  "ex_state =
     \<lparr>manifests = [''m'' \<mapsto> [''octocat/one'', ''octocat/missing'', ''octocat/three'']],
      repos = [],
      jsonl_files = Map.empty,
      opened = [],
      cloned = []\<rparr>"

text \<open>A state in which every repository of the manifest is already cloned.\<close>

definition ex_state_cloned :: state where
  "ex_state_cloned =
     \<lparr>manifests = [''m'' \<mapsto> [''octocat/one'', ''octocat/two'']],
      repos = [Dir ''one'' [File ''README.md'' True [0x68, 0x69],
                            Dir ''.git'' [File ''config'' True [0x78]]],
               Dir ''two'' [File ''a.py'' True [0x78]]],
      jsonl_files = [''h/data/raw/github/jsonl/one.jsonl'' \<mapsto> ''old''],
      opened = [],
      cloned = []\<rparr>"

text \<open>
  A state with two cloned repositories and no artifact; the first holds a Python file
  that cannot be opened.
\<close>

definition ex_state_broken :: state where
  "ex_state_broken =
     \<lparr>manifests = [''m'' \<mapsto> [''octocat/two'', ''octocat/three'']],
      repos = [Dir ''two'' [File ''broken.py'' False []],
               Dir ''three'' [File ''a.py'' True [0x78]]],
      jsonl_files = Map.empty,
      opened = [],
      cloned = []\<rparr>"

text \<open>A repository with hidden files and a hidden directory.\<close>

definition ex_repo :: entry where
  "ex_repo =
     Dir ''one''
       [File ''README.md'' True [0x68, 0x0A, 0x69],
        File ''.hidden.py'' True [0x78],
        Dir ''.git'' [File ''config'' True [0x78], Dir ''deep'' [File ''x.py'' True [0x78]]],
        Dir ''src'' [File ''m.py'' True [0x78], File ''.keep'' True [0x78]]]"

section \<open>What the conversion leaves untouched\<close>

lemma convert_file_to_json_frame:
  "convert_file_to_json c fp r b st = (res, st1) \<Longrightarrow>
     manifests st1 = manifests st \<and> repos st1 = repos st \<and> jsonl_files st1 = jsonl_files st
     \<and> cloned st1 = cloned st"
  by (auto simp add: convert_file_to_json_def Let_def
           split: option.splits prod.splits sum.splits if_splits)

lemma convert_files_frame:
  "convert_files c root files docs st = (res, st1) \<Longrightarrow>
     manifests st1 = manifests st \<and> repos st1 = repos st \<and> jsonl_files st1 = jsonl_files st
     \<and> cloned st1 = cloned st"
proof (induction files arbitrary: docs st)
  case Nil
  then show ?case by simp
next
  case (Cons f files)
  show ?case
  proof (cases f)
    case (Dir n es)
    with Cons show ?thesis by simp
  next
    case (File n r b)
    show ?thesis
    proof (cases "startswith n ''.''")
      case True
      with Cons File show ?thesis by simp
    next
      case False
      obtain r1 sa where cf: "convert_file_to_json c (join root n) r b st = (r1, sa)"
        by (cases "convert_file_to_json c (join root n) r b st")
      note f = convert_file_to_json_frame [OF cf]
      from Cons.prems File False cf
      have "(\<exists>e. r1 = Inl e \<and> st1 = sa)
            \<or> (\<exists>docs'. convert_files c root files docs' sa = (res, st1))"
        by (auto simp add: Let_def split: sum.splits option.splits)
      then show ?thesis
      proof
        assume "\<exists>e. r1 = Inl e \<and> st1 = sa"
        with f show ?thesis by simp
      next
        assume "\<exists>docs'. convert_files c root files docs' sa = (res, st1)"
        then obtain docs' where "convert_files c root files docs' sa = (res, st1)" ..
        from Cons.IH [OF this] f show ?thesis by simp
      qed
    qed
  qed
qed

lemma convert_walk_frame:
  "convert_walk c triples docs st = (res, st1) \<Longrightarrow>
     manifests st1 = manifests st \<and> repos st1 = repos st \<and> jsonl_files st1 = jsonl_files st
     \<and> cloned st1 = cloned st"
proof (induction triples arbitrary: docs st)
  case Nil
  then show ?case by simp
next
  case (Cons t triples)
  obtain root dirs files where t: "t = (root, dirs, files)" by (cases t)
  show ?case
  proof (cases "hidden_root root")
    case True
    with Cons t show ?thesis by simp
  next
    case False
    obtain r1 sa where cf: "convert_files c root files docs st = (r1, sa)"
      by (cases "convert_files c root files docs st")
    note f = convert_files_frame [OF cf]
    from Cons.prems t False cf
    have "(\<exists>e. r1 = Inl e \<and> st1 = sa)
          \<or> (\<exists>docs'. convert_walk c triples docs' sa = (res, st1))"
      by (auto split: sum.splits)
    then show ?thesis
    proof
      assume "\<exists>e. r1 = Inl e \<and> st1 = sa"
      with f show ?thesis by simp
    next
      assume "\<exists>docs'. convert_walk c triples docs' sa = (res, st1)"
      then obtain docs' where "convert_walk c triples docs' sa = (res, st1)" ..
      from Cons.IH [OF this] f show ?thesis by simp
    qed
  qed
qed

lemma convert_repo_to_jsonl_frame:
  assumes "convert_repo_to_jsonl c repo_dir repo jd st = (res, st1)"
  shows "manifests st1 = manifests st \<and> repos st1 = repos st \<and> cloned st1 = cloned st"
proof -
  obtain r1 sa where cw: "convert_walk c (os_walk repo_dir repo) [] st = (r1, sa)"
    by (cases "convert_walk c (os_walk repo_dir repo) [] st")
  note f = convert_walk_frame [OF cw]
  from assms cw f show ?thesis
    by (auto simp add: convert_repo_to_jsonl_def Let_def split: if_splits sum.splits)
qed

lemma convert_repos_frame:
  "convert_repos c root jd listing st = (res, st1) \<Longrightarrow>
     manifests st1 = manifests st \<and> repos st1 = repos st \<and> cloned st1 = cloned st"
proof (induction listing arbitrary: st)
  case Nil
  then show ?case by simp
next
  case (Cons repo listing)
  obtain r1 sa where cr:
    "convert_repo_to_jsonl c (join root (entry_name repo)) repo jd st = (r1, sa)"
    by (cases "convert_repo_to_jsonl c (join root (entry_name repo)) repo jd st")
  note f = convert_repo_to_jsonl_frame [OF cr]
  from Cons.prems cr
  have "(\<exists>e. r1 = Inl e \<and> st1 = sa) \<or> convert_repos c root jd listing sa = (res, st1)"
    by (auto simp add: Let_def split: sum.splits)
  then show ?case
  proof
    assume "\<exists>e. r1 = Inl e \<and> st1 = sa"
    with f show ?thesis by simp
  next
    assume "convert_repos c root jd listing sa = (res, st1)"
    from Cons.IH [OF this] f show ?thesis by simp
  qed
qed

lemma clone_repos_all_exist:
  "\<forall>url \<in> set urls. clone_dir_exists st (basename url) \<Longrightarrow> clone_repos c root urls st = st"
  by (induction urls) (simp_all add: Let_def)

lemma apply_limit_zero: "apply_limit (Some 0) urls = apply_limit None urls"
  by (simp add: apply_limit_def)

section \<open>Lower case commutes with the path functions\<close>

lemma of_char_lower_char:
  "(of_char (lower_char x) :: nat) =
     (if (65 \<le> (of_char x :: nat) \<and> (of_char x :: nat) \<le> 90)
         \<or> (192 \<le> (of_char x :: nat) \<and> (of_char x :: nat) \<le> 222 \<and> (of_char x :: nat) \<noteq> 215)
      then of_char x + 32 else of_char x)"
  by (simp add: lower_char_def Let_def)

lemma lower_char_dot: "lower_char x = CHR ''.'' \<longleftrightarrow> x = CHR ''.''"
proof -
  have "lower_char x = CHR ''.'' \<longleftrightarrow> (of_char (lower_char x) :: nat) = of_char (CHR ''.'')"
    by (simp only: of_char_eq_iff)
  also have "\<dots> \<longleftrightarrow> (of_char x :: nat) = of_char (CHR ''.'')"
    by (simp add: of_char_lower_char)
  also have "\<dots> \<longleftrightarrow> x = CHR ''.''"
    by (simp only: of_char_eq_iff)
  finally show ?thesis .
qed

lemma lower_char_slash: "lower_char x = CHR ''/'' \<longleftrightarrow> x = CHR ''/''"
proof -
  have "lower_char x = CHR ''/'' \<longleftrightarrow> (of_char (lower_char x) :: nat) = of_char (CHR ''/'')"
    by (simp only: of_char_eq_iff)
  also have "\<dots> \<longleftrightarrow> (of_char x :: nat) = of_char (CHR ''/'')"
    by (simp add: of_char_lower_char)
  also have "\<dots> \<longleftrightarrow> x = CHR ''/''"
    by (simp only: of_char_eq_iff)
  finally show ?thesis .
qed


lemma lower_Nil: "lower [] = []"
  by (simp add: lower_def)

lemma take_lower: "take n (lower p) = lower (take n p)"
  by (simp add: lower_def take_map)

lemma drop_lower: "drop n (lower p) = lower (drop n p)"
  by (simp add: lower_def drop_map)

lemma rfind_from_lower:
  "c = CHR ''.'' \<or> c = CHR ''/'' \<Longrightarrow>
     rfind_from (map lower_char p) c i found = rfind_from p c i found"
  by (induction p arbitrary: i found) (auto simp add: lower_char_dot lower_char_slash)

lemma rfind_lower:
  "c = CHR ''.'' \<or> c = CHR ''/'' \<Longrightarrow> rfind (lower p) c = rfind p c"
  by (simp add: rfind_def lower_def rfind_from_lower)

lemma basename_lower: "basename (lower p) = lower (basename p)"
  by (simp add: basename_def rfind_lower drop_lower)

lemma char_at_lower:
  "take (Suc 0) (drop i (lower p)) = ''.'' \<longleftrightarrow> take (Suc 0) (drop i p) = ''.''"
proof -
  have "take (Suc 0) (drop i (lower p)) = map lower_char (take (Suc 0) (drop i p))"
    by (simp add: lower_def take_map drop_map)
  moreover have "map lower_char xs = ''.'' \<longleftrightarrow> xs = ''.''" for xs
    by (cases xs) (auto simp add: lower_char_dot)
  ultimately show ?thesis by simp
qed

lemma splitext_loop_lower:
  "splitext_loop (lower p) i d = map_prod lower lower (splitext_loop p i d)"
proof (induction p i d rule: splitext_loop.induct)
  case (1 p i d)
  show ?case
  proof (cases "i < d")
    case False
    then show ?thesis
      by (simp add: splitext_loop.simps [of p i d] splitext_loop.simps [of "lower p" i d] lower_Nil)
  next
    case True
    show ?thesis
    proof (cases "take 1 (drop i p) = ''.''")
      case dot: True
      with True 1 show ?thesis
        by (simp add: splitext_loop.simps [of p i] splitext_loop.simps [of "lower p" i] char_at_lower)
    next
      case nodot: False
      with True show ?thesis
        by (simp add: splitext_loop.simps [of p i] splitext_loop.simps [of "lower p" i]
                      char_at_lower)
           (simp add: take_lower drop_lower)
    qed
  qed
qed

lemma splitext_lower: "splitext (lower p) = map_prod lower lower (splitext p)"
  by (simp add: splitext_def rfind_lower splitext_loop_lower Let_def lower_Nil)

lemma resolve_category_via_lower:
  "resolve_category p =
     (case splitext (basename (lower p)) of
        (filename_no_ext, ext) \<Rightarrow>
          (case table_get ext of
             None \<Rightarrow> (case table_get filename_no_ext of
                         None \<Rightarrow> None
                       | Some cat \<Rightarrow> Some (ext, cat))
           | Some cat \<Rightarrow> Some (ext, cat)))"
  by (simp add: resolve_category_def basename_lower splitext_lower Let_def split: prod.splits)

section \<open>Path components and hidden names\<close>

lemma split_sep_not_Nil: "split_sep s \<noteq> []"
  by (induction s) (auto split: list.splits)

lemma split_sep_no_sep: "CHR ''/'' \<notin> set b \<Longrightarrow> split_sep b = [b]"
  by (induction b) auto

lemma split_sep_append_sep: "split_sep (a @ CHR ''/'' # b) = split_sep a @ split_sep b"
proof (induction a)
  case Nil
  then show ?case by simp
next
  case (Cons x a)
  then show ?case
    using split_sep_not_Nil [of a] by (cases "split_sep a") auto
qed

lemma split_sep_append_no_sep:
  "CHR ''/'' \<notin> set b \<Longrightarrow>
     split_sep (a @ b) = butlast (split_sep a) @ [last (split_sep a) @ b]"
proof (induction a)
  case Nil
  then show ?case by (simp add: split_sep_no_sep)
next
  case (Cons x a)
  then show ?case
    using split_sep_not_Nil [of a] by (cases "split_sep a") auto
qed

lemma endswith_sep: "endswith a ''/'' \<Longrightarrow> \<exists>a'. a = a' @ ''/''"
proof -
  assume e: "endswith a ''/''"
  then have "drop (length a - 1) a = ''/''" by (simp add: endswith_def)
  then have "take (length a - 1) a @ ''/'' = a" by (metis append_take_drop_id)
  then have "a = take (length a - 1) a @ ''/''" by (rule sym)
  then show ?thesis by (rule exI)
qed

lemma last_split_sep_endswith: "endswith a ''/'' \<Longrightarrow> last (split_sep a) = []"
proof -
  assume "endswith a ''/''"
  then obtain a' where "a = a' @ ''/''" using endswith_sep by blast
  then show ?thesis
    using split_sep_append_sep [of a' "[]"] by simp
qed

lemma hidden_root_join:
  assumes r: "\<not> hidden_root root"
    and n: "CHR ''/'' \<notin> set fname"
    and h: "\<not> startswith fname ''.''"
  shows "\<not> hidden_root (join root fname)"
proof -
  have ns: "\<not> startswith fname ''/''"
    using n by (cases fname) (auto simp add: startswith_def)
  from r have parts: "\<forall>part \<in> set (split_sep root). \<not> startswith part ''.''"
    by (simp add: hidden_root_def list_ex_iff)
  show ?thesis
  proof (cases "root = []")
    case True
    with ns n h show ?thesis
      by (simp add: join_def hidden_root_def split_sep_no_sep)
  next
    case False
    show ?thesis
    proof (cases "endswith root ''/''")
      case True
      from True have l: "last (split_sep root) = []" by (rule last_split_sep_endswith)
      have "split_sep (root @ fname) = butlast (split_sep root) @ [fname]"
        using split_sep_append_no_sep [OF n, of root] l by simp
      moreover have "\<forall>part \<in> set (butlast (split_sep root)). \<not> startswith part ''.''"
        using parts by (meson in_set_butlastD)
      ultimately show ?thesis
        using True False ns h by (simp add: join_def hidden_root_def list_ex_iff)
    next
      case noslash: False
      have "split_sep (root @ ''/'' @ fname) = split_sep root @ [fname]"
        using split_sep_append_sep [of root fname] split_sep_no_sep [OF n] by simp
      with parts show ?thesis
        using noslash False ns h by (simp add: join_def hidden_root_def list_ex_iff)
    qed
  qed
qed

lemma convert_file_to_json_id:
  "convert_file_to_json c fp r b st = (Inr (Some d), st1) \<Longrightarrow> doc_id d = fp"
  by (auto simp add: convert_file_to_json_def Let_def
           split: option.splits prod.splits sum.splits if_splits)

lemma convert_files_visible:
  assumes "\<not> hidden_root root"
  shows "list_all file_names_ok files \<Longrightarrow>
         \<forall>d \<in> set docs. \<not> hidden_root (doc_id d) \<Longrightarrow>
         convert_files c root files docs st = (Inr docs1, st1) \<Longrightarrow>
         \<forall>d \<in> set docs1. \<not> hidden_root (doc_id d)"
proof (induction files arbitrary: docs st)
  case Nil
  then show ?case by simp
next
  case (Cons f files)
  show ?case
  proof (cases f)
    case (Dir n es)
    with Cons show ?thesis by simp
  next
    case (File n r b)
    show ?thesis
    proof (cases "startswith n ''.''")
      case True
      with Cons File show ?thesis by simp
    next
      case False
      from Cons.prems(1) File have n: "CHR ''/'' \<notin> set n" by simp
      have vis: "\<not> hidden_root (join root n)"
        using assms n False by (rule hidden_root_join)
      obtain r1 sa where cf: "convert_file_to_json c (join root n) r b st = (r1, sa)"
        by (cases "convert_file_to_json c (join root n) r b st")
      from Cons.prems(3) File False cf
      have "(r1 = Inr None \<and> convert_files c root files docs sa = (Inr docs1, st1))
            \<or> (\<exists>d. r1 = Inr (Some d)
                   \<and> convert_files c root files (docs @ [d]) sa = (Inr docs1, st1))"
        by (auto simp add: Let_def split: sum.splits option.splits)
      then show ?thesis
      proof
        assume "r1 = Inr None \<and> convert_files c root files docs sa = (Inr docs1, st1)"
        with Cons.IH [of docs sa] Cons.prems(1,2) show ?thesis by simp
      next
        assume "\<exists>d. r1 = Inr (Some d)
                   \<and> convert_files c root files (docs @ [d]) sa = (Inr docs1, st1)"
        then obtain d where d: "r1 = Inr (Some d)"
          and rest: "convert_files c root files (docs @ [d]) sa = (Inr docs1, st1)"
          by blast
        from cf d have "doc_id d = join root n" by (simp add: convert_file_to_json_id)
        with vis Cons.prems(2) have "\<forall>x \<in> set (docs @ [d]). \<not> hidden_root (doc_id x)"
          by simp
        with Cons.IH [OF _ _ rest] Cons.prems(1) show ?thesis by simp
      qed
    qed
  qed
qed

lemma convert_walk_visible:
  "\<forall>t \<in> set triples. list_all file_names_ok (snd (snd t)) \<Longrightarrow>
   \<forall>d \<in> set docs. \<not> hidden_root (doc_id d) \<Longrightarrow>
   convert_walk c triples docs st = (Inr docs1, st1) \<Longrightarrow>
   \<forall>d \<in> set docs1. \<not> hidden_root (doc_id d)"
proof (induction triples arbitrary: docs st)
  case Nil
  then show ?case by simp
next
  case (Cons t triples)
  obtain root dirs files where t: "t = (root, dirs, files)" by (cases t)
  show ?case
  proof (cases "hidden_root root")
    case True
    with Cons t show ?thesis by simp
  next
    case False
    obtain r1 sa where cf: "convert_files c root files docs st = (r1, sa)"
      by (cases "convert_files c root files docs st")
    from Cons.prems(3) t False cf
    obtain docs' where r1: "r1 = Inr docs'"
      and rest: "convert_walk c triples docs' sa = (Inr docs1, st1)"
      by (auto split: sum.splits)
    from Cons.prems(1) t have ok: "list_all file_names_ok files" by simp
    from convert_files_visible [OF False ok Cons.prems(2)] cf r1
    have "\<forall>d \<in> set docs'. \<not> hidden_root (doc_id d)" by simp
    with Cons.IH [OF _ _ rest] Cons.prems(1) show ?thesis by simp
  qed
qed

lemma walk_file_names_ok:
  "list_all file_names_ok es \<Longrightarrow>
     \<forall>t \<in> set (walk top_dir es). list_all file_names_ok (snd (snd t))"
proof (induction top_dir es rule: walk.induct)
  case (1 top_dir es)
  have here: "list_all file_names_ok (filter (\<lambda>e. \<not> is_dir e) es)"
    using "1.prems" by (simp add: list_all_iff)
  have sub: "\<forall>t \<in> set (case e of File n r b \<Rightarrow> [] | Dir n sub \<Rightarrow> walk (join top_dir n) sub).
               list_all file_names_ok (snd (snd t))" if e: "e \<in> set es" for e
  proof (cases e)
    case (File n r b)
    then show ?thesis by simp
  next
    case (Dir n sub)
    from "1.prems" e Dir have "list_all file_names_ok sub" by (auto simp add: list_all_iff)
    from "1.IH" [OF e Dir this] Dir show ?thesis by simp
  qed
  show ?case
    using here sub by (subst walk.simps) auto
qed

section \<open>Runs that do not raise\<close>

lemma convert_file_to_json_quiet:
  assumes "quiet_entry c (File n True content)"
  shows "\<exists>res. fst (convert_file_to_json c fp True content st) = Inr res"
proof (cases "detect c content")
  case None
  then show ?thesis
    by (simp add: convert_file_to_json_def Let_def split: option.splits prod.splits)
next
  case (Some enc)
  show ?thesis
  proof (cases "decode c enc content")
    case (Inl e)
    with assms Some have "enc = [] \<or> e = UnicodeDecodeError" by simp
    with Some Inl show ?thesis
      by (auto simp add: convert_file_to_json_def Let_def split: option.splits prod.splits)
  next
    case (Inr decoded)
    with Some show ?thesis
      by (simp add: convert_file_to_json_def Let_def split: option.splits prod.splits)
  qed
qed

lemma convert_files_quiet:
  "list_all (quiet_entry c) files \<Longrightarrow>
     \<exists>docs1. fst (convert_files c root files docs st) = Inr docs1"
proof (induction files arbitrary: docs st)
  case Nil
  then show ?case by simp
next
  case (Cons f files)
  from Cons.prems have rest: "list_all (quiet_entry c) files" by simp
  show ?case
  proof (cases f)
    case (Dir n es)
    with Cons.IH [OF rest] show ?thesis by simp
  next
    case (File n r b)
    with Cons.prems have r: "r = True" and q: "quiet_entry c (File n True b)" by simp_all
    show ?thesis
    proof (cases "startswith n ''.''")
      case True
      with Cons.IH [OF rest] File show ?thesis by simp
    next
      case False
      obtain r1 sa where cf: "convert_file_to_json c (join root n) True b st = (r1, sa)"
        by (cases "convert_file_to_json c (join root n) True b st")
      from convert_file_to_json_quiet [OF q, of "join root n" st] cf
      obtain res where r1: "r1 = Inr res" by auto
      show ?thesis
      proof (cases res)
        case None
        with Cons.IH [OF rest, of docs sa] File False cf r r1 show ?thesis
          by (simp add: Let_def)
      next
        case (Some doc)
        with Cons.IH [OF rest, of "docs @ [doc]" sa] File False cf r r1 show ?thesis
          by (simp add: Let_def)
      qed
    qed
  qed
qed

lemma convert_walk_quiet:
  "\<forall>t \<in> set triples. list_all (quiet_entry c) (snd (snd t)) \<Longrightarrow>
     \<exists>docs1. fst (convert_walk c triples docs st) = Inr docs1"
proof (induction triples arbitrary: docs st)
  case Nil
  then show ?case by simp
next
  case (Cons t triples)
  obtain root dirs files where t: "t = (root, dirs, files)" by (cases t)
  from Cons.prems have rest: "\<forall>t \<in> set triples. list_all (quiet_entry c) (snd (snd t))"
    by simp
  show ?case
  proof (cases "hidden_root root")
    case True
    with Cons.IH [OF rest] t show ?thesis by simp
  next
    case False
    from Cons.prems t have ok: "list_all (quiet_entry c) files" by simp
    obtain r1 sa where cf: "convert_files c root files docs st = (r1, sa)"
      by (cases "convert_files c root files docs st")
    from convert_files_quiet [OF ok, of root docs st] cf
    obtain docs' where r1: "r1 = Inr docs'" by auto
    with Cons.IH [OF rest, of docs' sa] t False cf show ?thesis by simp
  qed
qed

lemma walk_quiet:
  "list_all (quiet_entry c) es \<Longrightarrow>
     \<forall>t \<in> set (walk top_dir es). list_all (quiet_entry c) (snd (snd t))"
proof (induction top_dir es rule: walk.induct)
  case (1 top_dir es)
  have here: "list_all (quiet_entry c) (filter (\<lambda>e. \<not> is_dir e) es)"
    using "1.prems" by (simp add: list_all_iff)
  have sub: "\<forall>t \<in> set (case e of File n r b \<Rightarrow> [] | Dir n sub \<Rightarrow> walk (join top_dir n) sub).
               list_all (quiet_entry c) (snd (snd t))" if e: "e \<in> set es" for e
  proof (cases e)
    case (File n r b)
    then show ?thesis by simp
  next
    case (Dir n sub)
    from "1.prems" e Dir have "list_all (quiet_entry c) sub" by (auto simp add: list_all_iff)
    from "1.IH" [OF e Dir this] Dir show ?thesis by simp
  qed
  show ?case
    using here sub by (subst walk.simps) auto
qed

lemma os_walk_quiet:
  "quiet_entry c repo \<Longrightarrow>
     \<forall>t \<in> set (os_walk repo_dir repo). list_all (quiet_entry c) (snd (snd t))"
  using walk_quiet by (cases repo) (simp_all add: os_walk_def)

lemma convert_repo_to_jsonl_dom:
  assumes "convert_repo_to_jsonl c repo_dir repo jd st = (res, st1)"
  shows "dom (jsonl_files st) \<subseteq> dom (jsonl_files st1)"
proof -
  obtain r1 sa where cw: "convert_walk c (os_walk repo_dir repo) [] st = (r1, sa)"
    by (cases "convert_walk c (os_walk repo_dir repo) [] st")
  from convert_walk_frame [OF cw] have "jsonl_files sa = jsonl_files st" by simp
  with assms cw show ?thesis
    by (auto simp add: convert_repo_to_jsonl_def Let_def split: if_splits sum.splits)
qed

lemma convert_repo_to_jsonl_returns:
  assumes "convert_repo_to_jsonl c repo_dir repo jd st = (Inr u, st1)"
  shows "join jd (basename repo_dir @ ''.jsonl'') \<in> dom (jsonl_files st1)"
proof -
  obtain r1 sa where cw: "convert_walk c (os_walk repo_dir repo) [] st = (r1, sa)"
    by (cases "convert_walk c (os_walk repo_dir repo) [] st")
  with assms show ?thesis
    by (auto simp add: convert_repo_to_jsonl_def Let_def split: if_splits sum.splits)
qed

lemma convert_repo_to_jsonl_raises:
  assumes "convert_repo_to_jsonl c repo_dir repo jd st = (Inl e, st1)"
  shows "jsonl_files st1 = jsonl_files st"
proof -
  obtain r1 sa where cw: "convert_walk c (os_walk repo_dir repo) [] st = (r1, sa)"
    by (cases "convert_walk c (os_walk repo_dir repo) [] st")
  from convert_walk_frame [OF cw] have "jsonl_files sa = jsonl_files st" by simp
  with assms cw show ?thesis
    by (auto simp add: convert_repo_to_jsonl_def Let_def split: if_splits sum.splits)
qed

lemma convert_repo_to_jsonl_quiet:
  assumes r: "quiet_entry c repo"
  shows "fst (convert_repo_to_jsonl c repo_dir repo jd st) = Inr ()"
proof (cases "jsonl_files st (join jd (basename repo_dir @ ''.jsonl'')) = None")
  case False
  then show ?thesis by (auto simp add: convert_repo_to_jsonl_def Let_def)
next
  case True
  obtain r1 sa where cw: "convert_walk c (os_walk repo_dir repo) [] st = (r1, sa)"
    by (cases "convert_walk c (os_walk repo_dir repo) [] st")
  from convert_walk_quiet [OF os_walk_quiet [OF r], of repo_dir "[]" st] cw
  obtain docs where "r1 = Inr docs" by auto
  with True cw show ?thesis by (simp add: convert_repo_to_jsonl_def Let_def)
qed

lemma convert_repos_dom:
  "convert_repos c root jd listing st = (res, st1) \<Longrightarrow>
     dom (jsonl_files st) \<subseteq> dom (jsonl_files st1)"
proof (induction listing arbitrary: st)
  case Nil
  then show ?case by simp
next
  case (Cons repo listing)
  obtain r1 sa where cr:
    "convert_repo_to_jsonl c (join root (entry_name repo)) repo jd st = (r1, sa)"
    by (cases "convert_repo_to_jsonl c (join root (entry_name repo)) repo jd st")
  note m = convert_repo_to_jsonl_dom [OF cr]
  from Cons.prems cr
  have "(\<exists>e. r1 = Inl e \<and> st1 = sa) \<or> convert_repos c root jd listing sa = (res, st1)"
    by (auto simp add: Let_def split: sum.splits)
  then show ?case
  proof
    assume "\<exists>e. r1 = Inl e \<and> st1 = sa"
    with m show ?thesis by simp
  next
    assume "convert_repos c root jd listing sa = (res, st1)"
    from Cons.IH [OF this] m show ?thesis by blast
  qed
qed

lemma convert_repos_returns:
  "convert_repos c root jd listing st = (Inr u, st1) \<Longrightarrow>
     \<forall>repo \<in> set listing.
        join jd (basename (join root (entry_name repo)) @ ''.jsonl'') \<in> dom (jsonl_files st1)"
proof (induction listing arbitrary: st)
  case Nil
  then show ?case by simp
next
  case (Cons repo listing)
  obtain r1 sa where cr:
    "convert_repo_to_jsonl c (join root (entry_name repo)) repo jd st = (r1, sa)"
    by (cases "convert_repo_to_jsonl c (join root (entry_name repo)) repo jd st")
  from Cons.prems cr
  obtain u1 where r1: "r1 = Inr u1"
    and rest: "convert_repos c root jd listing sa = (Inr u, st1)"
    by (auto simp add: Let_def split: sum.splits)
  from convert_repo_to_jsonl_returns cr r1
  have "join jd (basename (join root (entry_name repo)) @ ''.jsonl'') \<in> dom (jsonl_files sa)"
    by blast
  with convert_repos_dom [OF rest]
  have here: "join jd (basename (join root (entry_name repo)) @ ''.jsonl'') \<in> dom (jsonl_files st1)"
    by blast
  from Cons.IH [OF rest] here show ?case by simp
qed

lemma convert_repos_quiet:
  "list_all (quiet_entry c) listing \<Longrightarrow> fst (convert_repos c root jd listing st) = Inr ()"
proof (induction listing arbitrary: st)
  case Nil
  then show ?case by simp
next
  case (Cons repo listing)
  from Cons.prems have r: "quiet_entry c repo" and rest: "list_all (quiet_entry c) listing"
    by simp_all
  obtain r1 sa where cr:
    "convert_repo_to_jsonl c (join root (entry_name repo)) repo jd st = (r1, sa)"
    by (cases "convert_repo_to_jsonl c (join root (entry_name repo)) repo jd st")
  from convert_repo_to_jsonl_quiet [OF r, of "join root (entry_name repo)" jd st] cr
  have r1: "r1 = Inr ()" by simp
  with Cons.IH [OF rest, of sa] cr show ?case by (simp add: Let_def)
qed

lemma convert_repos_raises:
  "convert_repos c root jd pre st = (Inr u, sp) \<Longrightarrow>
   convert_repo_to_jsonl c (join root (entry_name repo)) repo jd sp = (Inl e, sf) \<Longrightarrow>
   convert_repos c root jd (pre @ repo # post) st = (Inl e, sf)"
proof (induction pre arbitrary: st)
  case Nil
  then show ?case by (simp add: Let_def)
next
  case (Cons p pre)
  obtain r1 sa where cr:
    "convert_repo_to_jsonl c (join root (entry_name p)) p jd st = (r1, sa)"
    by (cases "convert_repo_to_jsonl c (join root (entry_name p)) p jd st")
  from Cons.prems(1) cr
  obtain u1 where r1: "r1 = Inr u1"
    and rest: "convert_repos c root jd pre sa = (Inr u, sp)"
    by (auto simp add: Let_def split: sum.splits)
  from Cons.IH [OF rest Cons.prems(2)] cr r1 show ?case by (simp add: Let_def)
qed

section \<open>The clone loop\<close>

lemma clone_repos_step:
  "\<exists>st1. clone_repos c root (url # urls) st = clone_repos c root urls st1
     \<and> (\<forall>x. clone_dir_exists st x \<longrightarrow> clone_dir_exists st1 x)
     \<and> set (cloned st) \<subseteq> set (cloned st1)
     \<and> set (cloned st1) \<subseteq> insert (url, join root (basename url)) (set (cloned st))
     \<and> (clone_dir_exists st1 (basename url)
          \<or> (url, join root (basename url)) \<in> set (cloned st1))"
proof (cases "clone_dir_exists st (basename url)")
  case True
  then have "clone_repos c root (url # urls) st = clone_repos c root urls st"
    by (simp add: Let_def)
  with True show ?thesis by blast
next
  case False
  obtain exit_code left where g: "git_clone c url (join root (basename url)) = (exit_code, left)"
    by (cases "git_clone c url (join root (basename url))")
  let ?st1 = "st\<lparr>cloned := cloned st @ [(url, join root (basename url))],
                 repos := (case left of None \<Rightarrow> repos st
                           | Some tree \<Rightarrow> repos st @ [Dir (basename url) tree])\<rparr>"
  have eq: "clone_repos c root (url # urls) st = clone_repos c root urls ?st1"
    using False g by (simp add: Let_def)
  have mono: "\<forall>x. clone_dir_exists st x \<longrightarrow> clone_dir_exists ?st1 x"
    by (cases left) (auto simp add: clone_dir_exists_def)
  have "set (cloned st) \<subseteq> set (cloned ?st1)" by auto
  moreover have "set (cloned ?st1) \<subseteq> insert (url, join root (basename url)) (set (cloned st))"
    by auto
  moreover have "(url, join root (basename url)) \<in> set (cloned ?st1)" by simp
  ultimately show ?thesis using eq mono by blast
qed

lemma clone_repos_exists_mono:
  "clone_dir_exists st x \<Longrightarrow> clone_dir_exists (clone_repos c root urls st) x"
proof (induction urls arbitrary: st)
  case Nil
  then show ?case by simp
next
  case (Cons url urls)
  from clone_repos_step [of c root url urls st]
  obtain st1 where eq: "clone_repos c root (url # urls) st = clone_repos c root urls st1"
    and m: "\<forall>x. clone_dir_exists st x \<longrightarrow> clone_dir_exists st1 x"
    by blast
  from m Cons.prems have "clone_dir_exists st1 x" by blast
  from Cons.IH [OF this] eq show ?case by simp
qed

lemma clone_repos_cloned_mono:
  "set (cloned st) \<subseteq> set (cloned (clone_repos c root urls st))"
proof (induction urls arbitrary: st)
  case Nil
  then show ?case by simp
next
  case (Cons url urls)
  from clone_repos_step [of c root url urls st]
  obtain st1 where eq: "clone_repos c root (url # urls) st = clone_repos c root urls st1"
    and m: "set (cloned st) \<subseteq> set (cloned st1)"
    by blast
  from Cons.IH [of st1] m eq show ?case by auto
qed

lemma clone_repos_cloned_only:
  "set (cloned (clone_repos c root urls st))
     \<subseteq> set (cloned st) \<union> (\<lambda>url. (url, join root (basename url))) ` set urls"
proof (induction urls arbitrary: st)
  case Nil
  then show ?case by simp
next
  case (Cons url urls)
  from clone_repos_step [of c root url urls st]
  obtain st1 where eq: "clone_repos c root (url # urls) st = clone_repos c root urls st1"
    and m: "set (cloned st1) \<subseteq> insert (url, join root (basename url)) (set (cloned st))"
    by blast
  from Cons.IH [of st1] m eq show ?case by auto
qed

lemma clone_repos_attempts:
  "\<forall>url \<in> set urls.
     clone_dir_exists (clone_repos c root urls st) (basename url)
     \<or> (url, join root (basename url)) \<in> set (cloned (clone_repos c root urls st))"
proof (induction urls arbitrary: st)
  case Nil
  then show ?case by simp
next
  case (Cons url urls)
  from clone_repos_step [of c root url urls st]
  obtain st1 where eq: "clone_repos c root (url # urls) st = clone_repos c root urls st1"
    and a: "clone_dir_exists st1 (basename url)
            \<or> (url, join root (basename url)) \<in> set (cloned st1)"
    by blast
  from a have "clone_dir_exists (clone_repos c root urls st1) (basename url)
            \<or> (url, join root (basename url)) \<in> set (cloned (clone_repos c root urls st1))"
    using clone_repos_exists_mono [of st1 "basename url" c root urls]
      clone_repos_cloned_mono [of st1 c root urls]
    by blast
  with Cons.IH [of st1] eq show ?case by simp
qed

section \<open>The builder without an encoding\<close>

lemma no_encoding_not_eligible:
  "detect c content = None \<or> detect c content = Some [] \<Longrightarrow>
     fst (convert_file_to_json c input_fp True content st) = Inr None"
  by (auto simp add: convert_file_to_json_def Let_def split: option.splits prod.splits)

section \<open>Claims on classification\<close>

text \<open>
  C1. The claim: a file named \<open>makefile\<close>, without extension, gets its category from
  the lookup of its name in the table, that is \<open>Makefile\<close>, and not from the entry
  for the empty extension. On the code the extension of \<open>makefile\<close> is the empty
  string, which is a key of the table, so the first test succeeds and the category is
  \<open>text\<close>; the entry \<open>makefile\<close> is never consulted for it.
\<close>

theorem makefile_resolves_to_text:
  "resolve_category ''makefile'' = Some ('''', ''text'')
   \<and> splitext ''makefile'' = (''makefile'', '''')
   \<and> table_get '''' = Some ''text''
   \<and> table_get (lower ''makefile'') = Some ''Makefile''"
  by code_simp

text \<open>
  C8. Classification is a function of the lower-cased path: two paths that differ only
  in letter case, such as \<open>FOO.PY\<close> and \<open>foo.py\<close>, get the same extension and
  the same category (or are both unsupported).
\<close>

theorem classification_case_insensitive:
  assumes "lower p = lower q"
  shows "resolve_category p = resolve_category q"
  by (simp only: resolve_category_via_lower assms)

text \<open>C8 on \<open>FOO.PY\<close> and \<open>foo.py\<close>.\<close>

theorem classification_case_insensitive_witness:
  "lower ''FOO.PY'' = lower ''foo.py''
   \<and> resolve_category ''FOO.PY'' = resolve_category ''foo.py''
   \<and> resolve_category ''foo.py'' = Some (''.py'', ''Python'')"
proof -
  have h: "lower ''FOO.PY'' = lower ''foo.py''" by code_simp
  have v: "resolve_category ''foo.py'' = Some (''.py'', ''Python'')" by code_simp
  from classification_case_insensitive [OF h] h v show ?thesis by blast
qed

section \<open>Claims on the document builder\<close>

text \<open>
  C3. The claim: on a buffer whose decoding under the detected encoding fails, the
  builder returns \<open>None\<close> and never raises. The code catches
  \<open>UnicodeDecodeError\<close> only. For a supported, readable file with a detected encoding
  under which decoding raises the exception \<open>e\<close>: the builder returns \<open>None\<close> when
  \<open>e\<close> is \<open>UnicodeDecodeError\<close>, and otherwise \<open>e\<close> leaves the builder. So a
  buffer for which the detector names an encoding without a codec, where decoding raises
  \<open>LookupError\<close>, makes the builder raise.
\<close>

theorem decode_exception_leaves_builder:
  assumes "resolve_category input_fp = Some (ext, cat)"
    and "detect c content = Some encoding"
    and "encoding \<noteq> []"
    and "decode c encoding content = Inl e"
  shows "fst (convert_file_to_json c input_fp True content st)
           = (if e = UnicodeDecodeError then Inr None else Inl e)"
  using assms by (simp add: convert_file_to_json_def Let_def)

text \<open>
  C3 on the buffer \<open>BF FE\<close>, named \<open>VISCII\<close>, for which decoding raises
  \<open>LookupError\<close>, and on the buffer \<open>FF\<close>, which is no UTF-8.
\<close>

theorem decode_exception_leaves_builder_witness:
  "resolve_category ''r/notes.txt'' = Some (''.txt'', ''text'')
   \<and> detect ex_chardet [0xBF, 0xFE] = Some ''VISCII''
   \<and> decode ex_chardet ''VISCII'' [0xBF, 0xFE] = Inl LookupError
   \<and> fst (convert_file_to_json ex_chardet ''r/notes.txt'' True [0xBF, 0xFE] ex_state)
        = Inl LookupError
   \<and> detect ex_chardet [0xFF] = Some ''UTF-8''
   \<and> decode ex_chardet ''UTF-8'' [0xFF] = Inl UnicodeDecodeError
   \<and> fst (convert_file_to_json ex_chardet ''r/notes.txt'' True [0xFF] ex_state) = Inr None"
proof -
  have h1: "resolve_category ''r/notes.txt'' = Some (''.txt'', ''text'')" by code_simp
  have h2: "detect ex_chardet [0xBF, 0xFE] = Some ''VISCII''" by (simp add: ex_chardet_def)
  have h3: "''VISCII'' \<noteq> []" by simp
  have h4: "decode ex_chardet ''VISCII'' [0xBF, 0xFE] = Inl LookupError"
    by (simp add: ex_chardet_def)
  from decode_exception_leaves_builder [OF h1 h2 h3 h4, of ex_state]
  have c1: "fst (convert_file_to_json ex_chardet ''r/notes.txt'' True [0xBF, 0xFE] ex_state)
              = Inl LookupError"
    by simp
  have "fst (convert_file_to_json ex_chardet ''r/notes.txt'' True [0xBF, 0xFE] ex_state)
          = Inl LookupError"
    by code_simp
  have k2: "detect ex_chardet [0xFF] = Some ''UTF-8''" by (simp add: ex_chardet_def)
  have k3: "''UTF-8'' \<noteq> []" by simp
  have k4: "decode ex_chardet ''UTF-8'' [0xFF] = Inl UnicodeDecodeError"
    by (simp add: ex_chardet_def)
  from decode_exception_leaves_builder [OF h1 k2 k3 k4, of ex_state]
  have c2: "fst (convert_file_to_json ex_chardet ''r/notes.txt'' True [0xFF] ex_state) = Inr None"
    by simp
  from h1 h2 h4 c1 k2 k4 c2 show ?thesis by blast
qed

text \<open>
  C7, as the code has it. For a supported, readable file whose bytes decode under the
  detected encoding, the record's \<open>line_count\<close> is the number of newline characters of
  the decoded text plus one and its \<open>size_in_bytes\<close> is the number of bytes of the
  file, whatever the length of the text. An empty file gives no record when the detector
  names no encoding for the empty buffer; it gives a record with \<open>line_count = 1\<close> and
  \<open>size_in_bytes = 0\<close> when the detector names one under which the empty buffer
  decodes to the empty text.
\<close>

theorem line_count_and_size:
  assumes "resolve_category input_fp = Some (ext, cat)"
  shows "(\<forall>encoding decoded.
            detect c content = Some encoding \<and> encoding \<noteq> []
            \<and> decode c encoding content = Inr decoded
            \<longrightarrow> fst (convert_file_to_json c input_fp True content st) =
                  Inr (Some \<lparr>doc_id = input_fp, doc_text = decoded, file_extension = ext,
                             category = cat,
                             line_count = int (length (filter (\<lambda>x. x = CHR 0x0A) decoded)) + 1,
                             size_in_bytes = int (length content), doc_path = input_fp\<rparr>))
       \<and> (detect c [] = None
            \<longrightarrow> fst (convert_file_to_json c input_fp True [] st) = Inr None)
       \<and> (\<forall>encoding.
            detect c [] = Some encoding \<and> encoding \<noteq> [] \<and> decode c encoding [] = Inr []
            \<longrightarrow> fst (convert_file_to_json c input_fp True [] st) =
                  Inr (Some \<lparr>doc_id = input_fp, doc_text = [], file_extension = ext,
                             category = cat, line_count = 1, size_in_bytes = 0,
                             doc_path = input_fp\<rparr>))"
  using assms by (auto simp add: convert_file_to_json_def Let_def count_char_def)

text \<open>
  C7 on a file of six bytes that decode to five characters on three lines, and on the
  empty file under both sets of collaborators.
\<close>

theorem line_count_and_size_witness:
  "resolve_category ''r/notes.txt'' = Some (''.txt'', ''text'')
   \<and> detect ex_chardet [0x61, 0x0A, 0xC3, 0xA9, 0x0A, 0x62] = Some ''UTF-8''
   \<and> decode ex_chardet ''UTF-8'' [0x61, 0x0A, 0xC3, 0xA9, 0x0A, 0x62]
        = Inr [CHR ''a'', CHR 0x0A, CHR 0xE9, CHR 0x0A, CHR ''b'']
   \<and> fst (convert_file_to_json ex_chardet ''r/notes.txt'' True
             [0x61, 0x0A, 0xC3, 0xA9, 0x0A, 0x62] ex_state) =
        Inr (Some \<lparr>doc_id = ''r/notes.txt'',
                   doc_text = [CHR ''a'', CHR 0x0A, CHR 0xE9, CHR 0x0A, CHR ''b''],
                   file_extension = ''.txt'', category = ''text'', line_count = 3,
                   size_in_bytes = 6, doc_path = ''r/notes.txt''\<rparr>)
   \<and> detect ex_chardet [] = None
   \<and> fst (convert_file_to_json ex_chardet ''r/notes.txt'' True [] ex_state) = Inr None
   \<and> detect ex_collab [] = Some ''ASCII''
   \<and> decode ex_collab ''ASCII'' [] = Inr []
   \<and> fst (convert_file_to_json ex_collab ''r/notes.txt'' True [] ex_state) =
        Inr (Some \<lparr>doc_id = ''r/notes.txt'', doc_text = [], file_extension = ''.txt'',
                   category = ''text'', line_count = 1, size_in_bytes = 0,
                   doc_path = ''r/notes.txt''\<rparr>)"
proof -
  let ?b = "[0x61, 0x0A, 0xC3, 0xA9, 0x0A, 0x62] :: bytes"
  let ?t = "[CHR ''a'', CHR 0x0A, CHR 0xE9, CHR 0x0A, CHR ''b'']"
  have h1: "resolve_category ''r/notes.txt'' = Some (''.txt'', ''text'')" by code_simp
  have h2: "detect ex_chardet ?b = Some ''UTF-8''" by (simp add: ex_chardet_def)
  have h3: "''UTF-8'' \<noteq> []" by simp
  have h4: "decode ex_chardet ''UTF-8'' ?b = Inr ?t" by code_simp
  note t = line_count_and_size [OF h1]
  from t [of ex_chardet ?b ex_state, THEN conjunct1, rule_format, of "''UTF-8''" ?t] h2 h3 h4
  have c1: "fst (convert_file_to_json ex_chardet ''r/notes.txt'' True ?b ex_state) =
        Inr (Some \<lparr>doc_id = ''r/notes.txt'', doc_text = ?t,
                   file_extension = ''.txt'', category = ''text'', line_count = 3,
                   size_in_bytes = 6, doc_path = ''r/notes.txt''\<rparr>)"
    by simp
  have "line_count (the (projr (fst (convert_file_to_json ex_chardet ''r/notes.txt'' True ?b
                                        ex_state)))) = 3"
    by code_simp
  have e1: "detect ex_chardet [] = None" by (simp add: ex_chardet_def)
  from t [of ex_chardet ?b ex_state, THEN conjunct2, THEN conjunct1, THEN mp, OF e1]
  have c2: "fst (convert_file_to_json ex_chardet ''r/notes.txt'' True [] ex_state) = Inr None" .
  have a2: "detect ex_collab [] = Some ''ASCII''" by (simp add: ex_collab_def)
  have a3: "''ASCII'' \<noteq> []" by simp
  have a4: "decode ex_collab ''ASCII'' [] = Inr []" by (simp add: ex_collab_def)
  from t [of ex_collab ?b ex_state, THEN conjunct2, THEN conjunct2, rule_format, of "''ASCII''"]
    a2 a3 a4
  have c3: "fst (convert_file_to_json ex_collab ''r/notes.txt'' True [] ex_state) =
        Inr (Some \<lparr>doc_id = ''r/notes.txt'', doc_text = [], file_extension = ''.txt'',
                   category = ''text'', line_count = 1, size_in_bytes = 0,
                   doc_path = ''r/notes.txt''\<rparr>)"
    by simp
  from h1 h2 h4 c1 e1 c2 a2 a4 c3 show ?thesis by blast
qed

text \<open>
  C7, as the claim states it, fails for the empty file: the detector names no encoding
  for the empty buffer, so the builder returns \<open>None\<close> for an empty text file and no
  record with \<open>line_count = 1\<close> is made.
\<close>

theorem empty_file_not_eligible:
  "resolve_category ''r/empty.txt'' = Some (''.txt'', ''text'')
   \<and> detect ex_chardet [] = None
   \<and> fst (convert_file_to_json ex_chardet ''r/empty.txt'' True [] ex_state) = Inr None"
  by code_simp

section \<open>Claims on the walker and converter\<close>

text \<open>
  C5. When the artifact of a repository already exists, \<open>convert_repo_to_jsonl\<close>
  returns at once with the state it was given: no file is opened and the artifact's
  content is what it was.
\<close>

theorem artifact_present_is_noop:
  assumes "jsonl_files st (join jd (basename repo_dir @ ''.jsonl'')) \<noteq> None"
  shows "convert_repo_to_jsonl c repo_dir repo jd st = (Inr (), st)
         \<and> opened (snd (convert_repo_to_jsonl c repo_dir repo jd st)) = opened st
         \<and> jsonl_files (snd (convert_repo_to_jsonl c repo_dir repo jd st)) = jsonl_files st"
  using assms by (simp add: convert_repo_to_jsonl_def Let_def)

text \<open>C5 on a repository whose artifact is present.\<close>

theorem artifact_present_is_noop_witness:
  "jsonl_files ex_state_cloned (join ''h/data/raw/github/jsonl''
       (basename ''h/data/raw/github/repos/one'' @ ''.jsonl'')) \<noteq> None
   \<and> opened (snd (convert_repo_to_jsonl ex_collab ''h/data/raw/github/repos/one''
         (Dir ''one'' [File ''README.md'' True [0x68, 0x69]]) ''h/data/raw/github/jsonl''
         ex_state_cloned)) = []
   \<and> jsonl_files (snd (convert_repo_to_jsonl ex_collab ''h/data/raw/github/repos/one''
         (Dir ''one'' [File ''README.md'' True [0x68, 0x69]]) ''h/data/raw/github/jsonl''
         ex_state_cloned)) ''h/data/raw/github/jsonl/one.jsonl'' = Some ''old''"
proof -
  have h: "jsonl_files ex_state_cloned (join ''h/data/raw/github/jsonl''
       (basename ''h/data/raw/github/repos/one'' @ ''.jsonl'')) \<noteq> None"
    by code_simp
  have o: "opened ex_state_cloned = []"
    and j: "jsonl_files ex_state_cloned ''h/data/raw/github/jsonl/one.jsonl'' = Some ''old''"
    by (simp_all add: ex_state_cloned_def)
  from artifact_present_is_noop [OF h, of ex_collab "Dir ''one'' [File ''README.md'' True [0x68, 0x69]]"]
    h o j
  show ?thesis by simp
qed

text \<open>
  C6. With no artifact present, the artifact is written only when the whole walk has
  returned its list of documents, and it then holds \<open>json.dumps\<close> of each document
  followed by a newline, in the order of the list. When the walk raises, the exception
  leaves \<open>convert_repo_to_jsonl\<close> and the files of the output directory are what
  they were.
\<close>

theorem artifact_only_after_walk:
  assumes "jsonl_files st (join jd (basename repo_dir @ ''.jsonl'')) = None"
  shows "case convert_walk c (os_walk repo_dir repo) [] st of
           (Inl e, st1) \<Rightarrow>
             convert_repo_to_jsonl c repo_dir repo jd st = (Inl e, st1)
             \<and> jsonl_files st1 = jsonl_files st
         | (Inr jsonl_docs, st1) \<Rightarrow>
             convert_repo_to_jsonl c repo_dir repo jd st =
               (Inr (), st1\<lparr>jsonl_files := (jsonl_files st)
                  (join jd (basename repo_dir @ ''.jsonl'') \<mapsto>
                     concat (map (\<lambda>jsonl_doc. dumps c jsonl_doc @ [CHR 0x0A]) jsonl_docs))\<rparr>)"
proof -
  obtain r sa where cw: "convert_walk c (os_walk repo_dir repo) [] st = (r, sa)"
    by (cases "convert_walk c (os_walk repo_dir repo) [] st")
  from convert_walk_frame [OF cw] have j: "jsonl_files sa = jsonl_files st" by simp
  show ?thesis
  proof (cases r)
    case (Inl e)
    with assms cw j show ?thesis
      by (simp add: convert_repo_to_jsonl_def Let_def)
  next
    case (Inr jsonl_docs)
    with assms cw j show ?thesis
      by (simp add: convert_repo_to_jsonl_def Let_def serialize_def)
  qed
qed

text \<open>C6 on a walk that raises and on a walk that returns two documents.\<close>

theorem artifact_only_after_walk_witness:
  "jsonl_files ex_state_cloned (join ''h/data/raw/github/jsonl''
       (basename ''h/data/raw/github/repos/two'' @ ''.jsonl'')) = None
   \<and> fst (convert_repo_to_jsonl ex_collab ''h/data/raw/github/repos/two''
         (Dir ''two'' [File ''broken.py'' False [], File ''a.py'' True [0x78]])
         ''h/data/raw/github/jsonl'' ex_state_cloned) = Inl OSError
   \<and> jsonl_files (snd (convert_repo_to_jsonl ex_collab ''h/data/raw/github/repos/two''
         (Dir ''two'' [File ''broken.py'' False [], File ''a.py'' True [0x78]])
         ''h/data/raw/github/jsonl'' ex_state_cloned)) ''h/data/raw/github/jsonl/two.jsonl'' = None
   \<and> fst (convert_repo_to_jsonl ex_collab ''h/data/raw/github/repos/two''
         (Dir ''two'' [File ''b.py'' True [0x79, 0x0A], File ''a.py'' True [0x78]])
         ''h/data/raw/github/jsonl'' ex_state_cloned) = Inr ()
   \<and> jsonl_files (snd (convert_repo_to_jsonl ex_collab ''h/data/raw/github/repos/two''
         (Dir ''two'' [File ''b.py'' True [0x79, 0x0A], File ''a.py'' True [0x78]])
         ''h/data/raw/github/jsonl'' ex_state_cloned)) ''h/data/raw/github/jsonl/two.jsonl'' =
       Some (''h/data/raw/github/repos/two/b.py Python'' @ [CHR 0x0A]
             @ ''h/data/raw/github/repos/two/a.py Python'' @ [CHR 0x0A])"
proof -
  let ?rd = "''h/data/raw/github/repos/two''"
  let ?jd = "''h/data/raw/github/jsonl''"
  let ?bad = "Dir ''two'' [File ''broken.py'' False [], File ''a.py'' True [0x78]]"
  let ?good = "Dir ''two'' [File ''b.py'' True [0x79, 0x0A], File ''a.py'' True [0x78]]"
  have h: "jsonl_files ex_state_cloned (join ?jd (basename ?rd @ ''.jsonl'')) = None"
    by code_simp
  have p: "join ?jd (basename ?rd @ ''.jsonl'') = ''h/data/raw/github/jsonl/two.jsonl''"
    by code_simp
  have j0: "jsonl_files ex_state_cloned ''h/data/raw/github/jsonl/two.jsonl'' = None"
    by (simp add: ex_state_cloned_def)
  \<comment> \<open>the walk that fails\<close>
  have wb: "fst (convert_walk ex_collab (os_walk ?rd ?bad) [] ex_state_cloned) = Inl OSError"
    by code_simp
  obtain sb where cwb: "convert_walk ex_collab (os_walk ?rd ?bad) [] ex_state_cloned = (Inl OSError, sb)"
    using wb by (cases "convert_walk ex_collab (os_walk ?rd ?bad) [] ex_state_cloned") simp
  from artifact_only_after_walk [OF h, of ex_collab ?bad] cwb
  have b: "convert_repo_to_jsonl ex_collab ?rd ?bad ?jd ex_state_cloned = (Inl OSError, sb)
           \<and> jsonl_files sb = jsonl_files ex_state_cloned"
    by simp
  from b j0 have b1: "fst (convert_repo_to_jsonl ex_collab ?rd ?bad ?jd ex_state_cloned) = Inl OSError"
    and b2: "jsonl_files (snd (convert_repo_to_jsonl ex_collab ?rd ?bad ?jd ex_state_cloned))
               ''h/data/raw/github/jsonl/two.jsonl'' = None"
    by simp_all
  \<comment> \<open>the walk that succeeds\<close>
  let ?docs = "[\<lparr>doc_id = ''h/data/raw/github/repos/two/b.py'', doc_text = [CHR ''y'', CHR 0x0A],
                  file_extension = ''.py'', category = ''Python'', line_count = 2,
                  size_in_bytes = 2, doc_path = ''h/data/raw/github/repos/two/b.py''\<rparr>,
                \<lparr>doc_id = ''h/data/raw/github/repos/two/a.py'', doc_text = ''x'',
                  file_extension = ''.py'', category = ''Python'', line_count = 1,
                  size_in_bytes = 1, doc_path = ''h/data/raw/github/repos/two/a.py''\<rparr>]"
  have wg: "fst (convert_walk ex_collab (os_walk ?rd ?good) [] ex_state_cloned) = Inr ?docs"
    by code_simp
  obtain sg where cwg: "convert_walk ex_collab (os_walk ?rd ?good) [] ex_state_cloned = (Inr ?docs, sg)"
    using wg by (cases "convert_walk ex_collab (os_walk ?rd ?good) [] ex_state_cloned") simp
  from artifact_only_after_walk [OF h, of ex_collab ?good] cwg
  have g: "convert_repo_to_jsonl ex_collab ?rd ?good ?jd ex_state_cloned =
             (Inr (), sg\<lparr>jsonl_files := (jsonl_files ex_state_cloned)
                (join ?jd (basename ?rd @ ''.jsonl'') \<mapsto>
                   concat (map (\<lambda>jsonl_doc. dumps ex_collab jsonl_doc @ [CHR 0x0A]) ?docs))\<rparr>)"
    by simp
  have d: "concat (map (\<lambda>jsonl_doc. dumps ex_collab jsonl_doc @ [CHR 0x0A]) ?docs) =
             ''h/data/raw/github/repos/two/b.py Python'' @ [CHR 0x0A]
             @ ''h/data/raw/github/repos/two/a.py Python'' @ [CHR 0x0A]"
    by (simp add: ex_collab_def)
  from g have g1: "fst (convert_repo_to_jsonl ex_collab ?rd ?good ?jd ex_state_cloned) = Inr ()"
    by simp
  from g p d
  have g2: "jsonl_files (snd (convert_repo_to_jsonl ex_collab ?rd ?good ?jd ex_state_cloned))
              ''h/data/raw/github/jsonl/two.jsonl'' =
            Some (''h/data/raw/github/repos/two/b.py Python'' @ [CHR 0x0A]
                  @ ''h/data/raw/github/repos/two/a.py Python'' @ [CHR 0x0A])"
    by simp
  from h b1 b2 g1 g2 show ?thesis by blast
qed

text \<open>
  C4. In a tree whose file names are path components, every document the walk collects
  has an identifier, the path of its file, none of whose components begins with a dot:
  neither the file's own name nor the name of any directory above it. So a hidden file,
  and a file anywhere below a hidden directory, gives no document.
\<close>

theorem hidden_paths_contribute_nothing:
  assumes "file_names_ok repo"
    and "convert_walk c (os_walk repo_dir repo) [] st = (Inr jsonl_docs, st1)"
  shows "\<forall>d \<in> set jsonl_docs.
           \<not> list_ex (\<lambda>part. startswith part ''.'') (split_sep (doc_id d))"
proof -
  have "\<forall>t \<in> set (os_walk repo_dir repo). list_all file_names_ok (snd (snd t))"
  proof (cases repo)
    case (File n r b)
    then show ?thesis by (simp add: os_walk_def)
  next
    case (Dir n es)
    with assms(1) walk_file_names_ok [of es repo_dir] show ?thesis by (simp add: os_walk_def)
  qed
  from convert_walk_visible [OF this _ assms(2)]
  show ?thesis by (simp add: hidden_root_def)
qed

text \<open>
  C4 on a repository with a hidden file, a hidden directory holding a file and a
  sub-directory, and two visible files: the two visible files give the documents.
\<close>

theorem hidden_paths_contribute_nothing_witness:
  "file_names_ok ex_repo
   \<and> fst (convert_walk ex_collab (os_walk ''h/data/raw/github/repos/one'' ex_repo) [] ex_state) =
       Inr [\<lparr>doc_id = ''h/data/raw/github/repos/one/README.md'',
              doc_text = [CHR ''h'', CHR 0x0A, CHR ''i''],
              file_extension = ''.md'', category = ''text'', line_count = 2,
              size_in_bytes = 3, doc_path = ''h/data/raw/github/repos/one/README.md''\<rparr>,
            \<lparr>doc_id = ''h/data/raw/github/repos/one/src/m.py'', doc_text = ''x'',
              file_extension = ''.py'', category = ''Python'', line_count = 1,
              size_in_bytes = 1, doc_path = ''h/data/raw/github/repos/one/src/m.py''\<rparr>]
   \<and> \<not> list_ex (\<lambda>part. startswith part ''.'')
          (split_sep ''h/data/raw/github/repos/one/README.md'')
   \<and> \<not> list_ex (\<lambda>part. startswith part ''.'')
          (split_sep ''h/data/raw/github/repos/one/src/m.py'')"
proof -
  let ?docs = "[\<lparr>doc_id = ''h/data/raw/github/repos/one/README.md'',
              doc_text = [CHR ''h'', CHR 0x0A, CHR ''i''],
              file_extension = ''.md'', category = ''text'', line_count = 2,
              size_in_bytes = 3, doc_path = ''h/data/raw/github/repos/one/README.md''\<rparr>,
            \<lparr>doc_id = ''h/data/raw/github/repos/one/src/m.py'', doc_text = ''x'',
              file_extension = ''.py'', category = ''Python'', line_count = 1,
              size_in_bytes = 1, doc_path = ''h/data/raw/github/repos/one/src/m.py''\<rparr>]"
  have h: "file_names_ok ex_repo" by code_simp
  have w: "fst (convert_walk ex_collab (os_walk ''h/data/raw/github/repos/one'' ex_repo) []
                  ex_state) = Inr ?docs"
    by code_simp
  obtain s1 where cw:
    "convert_walk ex_collab (os_walk ''h/data/raw/github/repos/one'' ex_repo) [] ex_state =
       (Inr ?docs, s1)"
    using w
    by (cases "convert_walk ex_collab (os_walk ''h/data/raw/github/repos/one'' ex_repo) []
                 ex_state") simp
  from hidden_paths_contribute_nothing [OF h cw]
  have v: "\<not> list_ex (\<lambda>part. startswith part ''.'')
               (split_sep ''h/data/raw/github/repos/one/README.md'')
           \<and> \<not> list_ex (\<lambda>part. startswith part ''.'')
               (split_sep ''h/data/raw/github/repos/one/src/m.py'')"
    by simp
  from h w v show ?thesis by blast
qed

section \<open>Claims on the orchestrator\<close>

text \<open>
  C2, as the code has it. For a manifest that exists:
  \<^item> whatever the exit statuses of the clone commands, every entry of the (limited)
    manifest either has its target directory or has had its clone command run;
  \<^item> when every file of every listed repository can be opened and decodes or is
    rejected with \<open>UnicodeDecodeError\<close> (\<open>quiet_entry\<close>), the run returns;
  \<^item> when the run returns, it returns the output directory and every entry listed in
    the clone root has its artifact;
  \<^item> when the conversion of a listed repository raises after the repositories before it
    were converted, the run ends with that exception in the state the failing conversion
    left, whose output files are those written before it: the repositories after it are
    not converted.
\<close>

theorem clone_failure_isolated:
  assumes m: "manifests st f = Some urls0"
  shows "(\<forall>url \<in> set (apply_limit limit urls0).
            clone_dir_exists (snd (download_github_sources c here (Some f) limit st)) (basename url)
            \<or> (url, join (clone_root_dir here) (basename url))
                 \<in> set (cloned (snd (download_github_sources c here (Some f) limit st))))
       \<and> (list_all (quiet_entry c) (repos (snd (download_github_sources c here (Some f) limit st)))
            \<longrightarrow> fst (download_github_sources c here (Some f) limit st) = Inr (jsonl_dir here))
       \<and> (\<forall>d. fst (download_github_sources c here (Some f) limit st) = Inr d
            \<longrightarrow> d = jsonl_dir here
              \<and> (\<forall>repo \<in> set (repos (snd (download_github_sources c here (Some f) limit st))).
                    join (jsonl_dir here)
                         (basename (join (clone_root_dir here) (entry_name repo)) @ ''.jsonl'')
                      \<in> dom (jsonl_files (snd (download_github_sources c here (Some f) limit st)))))
       \<and> (\<forall>pre repo post sp e sf.
             repos (clone_repos c (clone_root_dir here) (apply_limit limit urls0) st)
               = pre @ repo # post
             \<and> convert_repos c (clone_root_dir here) (jsonl_dir here) pre
                 (clone_repos c (clone_root_dir here) (apply_limit limit urls0) st) = (Inr (), sp)
             \<and> convert_repo_to_jsonl c (join (clone_root_dir here) (entry_name repo)) repo
                 (jsonl_dir here) sp = (Inl e, sf)
            \<longrightarrow> download_github_sources c here (Some f) limit st = (Inl e, sf)
              \<and> jsonl_files sf = jsonl_files sp)"
proof -
  let ?urls = "apply_limit limit urls0"
  let ?st1 = "clone_repos c (clone_root_dir here) ?urls st"
  let ?run = "download_github_sources c here (Some f) limit st"
  obtain r2 st2 where cr:
    "convert_repos c (clone_root_dir here) (jsonl_dir here) (repos ?st1) ?st1 = (r2, st2)"
    by (cases "convert_repos c (clone_root_dir here) (jsonl_dir here) (repos ?st1) ?st1")
  have run1: "?run = (case r2 of Inl e \<Rightarrow> (Inl e, st2)
                            | Inr u \<Rightarrow> (Inr (jsonl_dir here), st2))"
    using m cr by (simp add: download_github_sources_def Let_def)
  then have run2: "snd ?run = st2"
    by (cases r2) simp_all
  from convert_repos_frame [OF cr]
  have run3: "repos st2 = repos ?st1" and run4: "cloned st2 = cloned ?st1"
    by simp_all
  note run = run1 run2 run3 run4
  have ex: "clone_dir_exists st2 x = clone_dir_exists ?st1 x" for x
    using run(3) by (simp add: clone_dir_exists_def)
  have part1: "\<forall>url \<in> set ?urls.
            clone_dir_exists (snd ?run) (basename url)
            \<or> (url, join (clone_root_dir here) (basename url)) \<in> set (cloned (snd ?run))"
    using clone_repos_attempts [of ?urls c "clone_root_dir here" st] run(2,4) ex by simp
  have part2: "fst ?run = Inr (jsonl_dir here)"
    if q: "list_all (quiet_entry c) (repos (snd ?run))"
  proof -
    from q run(2,3) have "list_all (quiet_entry c) (repos ?st1)" by simp
    from convert_repos_quiet [OF this, of "clone_root_dir here" "jsonl_dir here" ?st1] cr
    have "r2 = Inr ()" by simp
    with run(1) show ?thesis by simp
  qed
  have part3: "d = jsonl_dir here
              \<and> (\<forall>repo \<in> set (repos (snd ?run)).
                    join (jsonl_dir here)
                         (basename (join (clone_root_dir here) (entry_name repo)) @ ''.jsonl'')
                      \<in> dom (jsonl_files (snd ?run)))"
    if d: "fst ?run = Inr d" for d
  proof -
    from d run(1) obtain u where r2: "r2 = Inr u" and dd: "d = jsonl_dir here"
      by (cases r2) simp_all
    from convert_repos_returns [of c "clone_root_dir here" "jsonl_dir here" "repos ?st1" ?st1 u st2]
      cr r2 run(2,3) dd
    show ?thesis by simp
  qed
  have part4: "?run = (Inl e, sf) \<and> jsonl_files sf = jsonl_files sp"
    if l: "repos ?st1 = pre @ repo # post"
      and p: "convert_repos c (clone_root_dir here) (jsonl_dir here) pre ?st1 = (Inr (), sp)"
      and x: "convert_repo_to_jsonl c (join (clone_root_dir here) (entry_name repo)) repo
                (jsonl_dir here) sp = (Inl e, sf)"
    for pre repo post sp e sf
  proof -
    from convert_repos_raises [OF p x, of post] l cr
    have "r2 = Inl e" and "st2 = sf" by simp_all
    with run(1) have "?run = (Inl e, sf)" by simp
    with convert_repo_to_jsonl_raises [OF x] show ?thesis by simp
  qed
  from part1 part2 part3 part4 show ?thesis by blast
qed

text \<open>
  C2 on a manifest of three entries whose second clone fails with status 128: all three
  clone commands are run and the first and the third repository are converted. And on
  a listing whose first repository holds a file that cannot be opened: the run ends
  with \<open>OSError\<close> and no output file is written.
\<close>

theorem clone_failure_isolated_witness:
  "manifests ex_state ''m'' = Some [''octocat/one'', ''octocat/missing'', ''octocat/three'']
   \<and> fst (git_clone ex_collab ''octocat/missing'' ''h/data/raw/github/repos/missing'') = 128
   \<and> fst (download_github_sources ex_collab ''h'' (Some ''m'') None ex_state)
        = Inr ''h/data/raw/github/jsonl''
   \<and> cloned (snd (download_github_sources ex_collab ''h'' (Some ''m'') None ex_state))
        = [(''octocat/one'', ''h/data/raw/github/repos/one''),
           (''octocat/missing'', ''h/data/raw/github/repos/missing''),
           (''octocat/three'', ''h/data/raw/github/repos/three'')]
   \<and> map entry_name (repos (snd (download_github_sources ex_collab ''h'' (Some ''m'') None ex_state)))
        = [''one'', ''three'']
   \<and> ''h/data/raw/github/jsonl/one.jsonl''
        \<in> dom (jsonl_files (snd (download_github_sources ex_collab ''h'' (Some ''m'') None ex_state)))
   \<and> ''h/data/raw/github/jsonl/three.jsonl''
        \<in> dom (jsonl_files (snd (download_github_sources ex_collab ''h'' (Some ''m'') None ex_state)))
   \<and> manifests ex_state_broken ''m'' = Some [''octocat/two'', ''octocat/three'']
   \<and> fst (download_github_sources ex_collab ''h'' (Some ''m'') None ex_state_broken) = Inl OSError
   \<and> jsonl_files (snd (download_github_sources ex_collab ''h'' (Some ''m'') None ex_state_broken))
        = jsonl_files ex_state_broken"
proof -
  let ?run = "download_github_sources ex_collab ''h'' (Some ''m'') None ex_state"
  let ?bad = "download_github_sources ex_collab ''h'' (Some ''m'') None ex_state_broken"
  have m: "manifests ex_state ''m'' = Some [''octocat/one'', ''octocat/missing'', ''octocat/three'']"
    by (simp add: ex_state_def)
  have x: "fst (git_clone ex_collab ''octocat/missing'' ''h/data/raw/github/repos/missing'') = 128"
    by (simp add: ex_collab_def)
  have q: "list_all (quiet_entry ex_collab) (repos (snd ?run))"
    by code_simp
  have names: "map entry_name (repos (snd ?run)) = [''one'', ''three'']"
    by code_simp
  have log: "cloned (snd ?run)
        = [(''octocat/one'', ''h/data/raw/github/repos/one''),
           (''octocat/missing'', ''h/data/raw/github/repos/missing''),
           (''octocat/three'', ''h/data/raw/github/repos/three'')]"
    by code_simp
  have jd: "jsonl_dir ''h'' = ''h/data/raw/github/jsonl''" by code_simp
  have p1: "join (jsonl_dir ''h'') (basename (join (clone_root_dir ''h'') ''one'') @ ''.jsonl'')
              = ''h/data/raw/github/jsonl/one.jsonl''"
    by code_simp
  have p3: "join (jsonl_dir ''h'') (basename (join (clone_root_dir ''h'') ''three'') @ ''.jsonl'')
              = ''h/data/raw/github/jsonl/three.jsonl''"
    by code_simp
  note t = clone_failure_isolated [OF m, of None ex_collab "''h''"]
  from t [THEN conjunct2, THEN conjunct1, THEN mp, OF q]
  have res: "fst ?run = Inr (jsonl_dir ''h'')" .
  from t [THEN conjunct2, THEN conjunct2, THEN conjunct1, THEN spec, THEN mp, OF res]
  have arts: "\<forall>repo \<in> set (repos (snd ?run)).
                 join (jsonl_dir ''h'')
                      (basename (join (clone_root_dir ''h'') (entry_name repo)) @ ''.jsonl'')
                   \<in> dom (jsonl_files (snd ?run))"
    by (rule conjunct2)
  then have "\<forall>n \<in> set (map entry_name (repos (snd ?run))).
                 join (jsonl_dir ''h'') (basename (join (clone_root_dir ''h'') n) @ ''.jsonl'')
                   \<in> dom (jsonl_files (snd ?run))"
    by simp
  with names p1 p3
  have a1: "''h/data/raw/github/jsonl/one.jsonl'' \<in> dom (jsonl_files (snd ?run))"
    and a3: "''h/data/raw/github/jsonl/three.jsonl'' \<in> dom (jsonl_files (snd ?run))"
    by simp_all
  from res jd have res': "fst ?run = Inr ''h/data/raw/github/jsonl''" by simp
  \<comment> \<open>the run whose first conversion raises\<close>
  have mb: "manifests ex_state_broken ''m'' = Some [''octocat/two'', ''octocat/three'']"
    by (simp add: ex_state_broken_def)
  have present: "\<forall>url \<in> set (apply_limit None [''octocat/two'', ''octocat/three'']).
                   clone_dir_exists ex_state_broken (basename url)"
    by code_simp
  have st1: "clone_repos ex_collab (clone_root_dir ''h'')
               (apply_limit None [''octocat/two'', ''octocat/three'']) ex_state_broken
             = ex_state_broken"
    using present by (rule clone_repos_all_exist)
  have listing: "repos ex_state_broken
                   = [] @ Dir ''two'' [File ''broken.py'' False []]
                        # [Dir ''three'' [File ''a.py'' True [0x78]]]"
    by (simp add: ex_state_broken_def)
  have raises: "fst (convert_repo_to_jsonl ex_collab
                  (join (clone_root_dir ''h'') (entry_name (Dir ''two'' [File ''broken.py'' False []])))
                  (Dir ''two'' [File ''broken.py'' False []]) (jsonl_dir ''h'') ex_state_broken)
                = Inl OSError"
    by code_simp
  then obtain sf where sf: "convert_repo_to_jsonl ex_collab
                  (join (clone_root_dir ''h'') (entry_name (Dir ''two'' [File ''broken.py'' False []])))
                  (Dir ''two'' [File ''broken.py'' False []]) (jsonl_dir ''h'') ex_state_broken
                = (Inl OSError, sf)"
    by (cases "convert_repo_to_jsonl ex_collab
                  (join (clone_root_dir ''h'') (entry_name (Dir ''two'' [File ''broken.py'' False []])))
                  (Dir ''two'' [File ''broken.py'' False []]) (jsonl_dir ''h'') ex_state_broken")
       simp
  have pre: "convert_repos ex_collab (clone_root_dir ''h'') (jsonl_dir ''h'') [] ex_state_broken
               = (Inr (), ex_state_broken)"
    by simp
  note tb = clone_failure_isolated [OF mb, of None ex_collab "''h''",
      THEN conjunct2, THEN conjunct2, THEN conjunct2, rule_format,
      of "[]" "Dir ''two'' [File ''broken.py'' False []]"
         "[Dir ''three'' [File ''a.py'' True [0x78]]]" ex_state_broken OSError sf]
  have "?bad = (Inl OSError, sf) \<and> jsonl_files sf = jsonl_files ex_state_broken"
  proof (rule tb, intro conjI)
    show "repos (clone_repos ex_collab (clone_root_dir ''h'')
                   (apply_limit None [''octocat/two'', ''octocat/three'']) ex_state_broken)
            = [] @ Dir ''two'' [File ''broken.py'' False []]
                 # [Dir ''three'' [File ''a.py'' True [0x78]]]"
      by (simp only: st1 listing)
    show "convert_repos ex_collab (clone_root_dir ''h'') (jsonl_dir ''h'') []
            (clone_repos ex_collab (clone_root_dir ''h'')
               (apply_limit None [''octocat/two'', ''octocat/three'']) ex_state_broken)
            = (Inr (), ex_state_broken)"
      by (simp only: st1 pre)
    show "convert_repo_to_jsonl ex_collab
            (join (clone_root_dir ''h'') (entry_name (Dir ''two'' [File ''broken.py'' False []])))
            (Dir ''two'' [File ''broken.py'' False []]) (jsonl_dir ''h'') ex_state_broken
            = (Inl OSError, sf)"
      by (rule sf)
  qed
  then have b1: "fst ?bad = Inl OSError"
    and b2: "jsonl_files (snd ?bad) = jsonl_files ex_state_broken"
    by simp_all
  from m x res' log names a1 a3 mb b1 b2 show ?thesis by blast
qed

text \<open>
  C2, as the claim states it, fails for a walk that raises. The clone root lists two
  repositories; the first holds a Python file that cannot be opened. The exception
  leaves \<open>convert_repo_to_jsonl\<close> and the loop over the listing, so the run ends with
  it and the second repository, which converts without error on its own, has no
  artifact.
\<close>

theorem walk_failure_aborts_run:
  "fst (download_github_sources ex_collab ''h'' (Some ''m'') None ex_state_broken) = Inl OSError
   \<and> jsonl_files (snd (download_github_sources ex_collab ''h'' (Some ''m'') None ex_state_broken))
        ''h/data/raw/github/jsonl/three.jsonl'' = None
   \<and> fst (convert_repo_to_jsonl ex_collab ''h/data/raw/github/repos/three''
             (Dir ''three'' [File ''a.py'' True [0x78]]) ''h/data/raw/github/jsonl''
             ex_state_broken) = Inr ()
   \<and> jsonl_files (snd (convert_repo_to_jsonl ex_collab ''h/data/raw/github/repos/three''
             (Dir ''three'' [File ''a.py'' True [0x78]]) ''h/data/raw/github/jsonl''
             ex_state_broken)) ''h/data/raw/github/jsonl/three.jsonl''
       = Some (''h/data/raw/github/repos/three/a.py Python'' @ [CHR 0x0A])"
  by code_simp

text \<open>
  C9. When the target directory of every manifest entry exists, the run issues no clone
  command, and it goes on to convert what the clone root lists.
\<close>

theorem all_present_no_clone:
  assumes "manifests st f = Some urls0"
    and "\<forall>url \<in> set (apply_limit limit urls0). clone_dir_exists st (basename url)"
  shows "cloned (snd (download_github_sources c here (Some f) limit st)) = cloned st
     \<and> download_github_sources c here (Some f) limit st =
         (case convert_repos c (clone_root_dir here) (jsonl_dir here) (repos st) st of
            (Inl e, st2) \<Rightarrow> (Inl e, st2)
          | (Inr u, st2) \<Rightarrow> (Inr (jsonl_dir here), st2))"
proof -
  have cl: "clone_repos c (clone_root_dir here) (apply_limit limit urls0) st = st"
    using assms(2) by (rule clone_repos_all_exist)
  have eq: "download_github_sources c here (Some f) limit st =
         (case convert_repos c (clone_root_dir here) (jsonl_dir here) (repos st) st of
            (Inl e, st2) \<Rightarrow> (Inl e, st2)
          | (Inr u, st2) \<Rightarrow> (Inr (jsonl_dir here), st2))"
    using assms(1) cl by (simp add: download_github_sources_def Let_def)
  obtain r1 sa where cr:
    "convert_repos c (clone_root_dir here) (jsonl_dir here) (repos st) st = (r1, sa)"
    by (cases "convert_repos c (clone_root_dir here) (jsonl_dir here) (repos st) st")
  from convert_repos_frame [OF cr] have "cloned sa = cloned st" by simp
  with eq cr have "cloned (snd (download_github_sources c here (Some f) limit st)) = cloned st"
    by (cases r1) simp_all
  with eq show ?thesis by simp
qed

text \<open>C9 on a manifest of two repositories that are both present.\<close>

theorem all_present_no_clone_witness:
  "manifests ex_state_cloned ''m'' = Some [''octocat/one'', ''octocat/two'']
   \<and> apply_limit None [''octocat/one'', ''octocat/two''] = [''octocat/one'', ''octocat/two'']
   \<and> clone_dir_exists ex_state_cloned (basename ''octocat/one'')
   \<and> clone_dir_exists ex_state_cloned (basename ''octocat/two'')
   \<and> cloned (snd (download_github_sources ex_collab ''h'' (Some ''m'') None ex_state_cloned)) = []
   \<and> fst (download_github_sources ex_collab ''h'' (Some ''m'') None ex_state_cloned)
        = Inr ''h/data/raw/github/jsonl''"
proof -
  have run: "fst (download_github_sources ex_collab ''h'' (Some ''m'') None ex_state_cloned)
        = Inr ''h/data/raw/github/jsonl''"
    by code_simp
  have h1: "manifests ex_state_cloned ''m'' = Some [''octocat/one'', ''octocat/two'']"
    by (simp add: ex_state_cloned_def)
  have l: "apply_limit None [''octocat/one'', ''octocat/two''] = [''octocat/one'', ''octocat/two'']"
    by (simp add: apply_limit_def)
  have e1: "clone_dir_exists ex_state_cloned (basename ''octocat/one'')" by code_simp
  have e2: "clone_dir_exists ex_state_cloned (basename ''octocat/two'')" by code_simp
  from l e1 e2
  have h2: "\<forall>url \<in> set (apply_limit None [''octocat/one'', ''octocat/two'']).
              clone_dir_exists ex_state_cloned (basename url)"
    by simp
  have c0: "cloned ex_state_cloned = []" by (simp add: ex_state_cloned_def)
  from all_present_no_clone [OF h1 h2, of ex_collab "''h''"]
  have "cloned (snd (download_github_sources ex_collab ''h'' (Some ''m'') None ex_state_cloned))
          = cloned ex_state_cloned"
    by blast
  with c0
  have "cloned (snd (download_github_sources ex_collab ''h'' (Some ''m'') None ex_state_cloned)) = []"
    by (simp only:)
  with h1 l e1 e2 run show ?thesis by blast
qed

text \<open>
  C10. For a manifest that exists: with the limit \<open>0\<close> the run is the run without a
  limit, its clone loop goes over the whole manifest and every entry either has its
  target directory or has had its clone command run. With a positive limit \<open>k\<close> the
  clone loop goes over the first \<open>k\<close> entries: each of them has its directory or its
  clone command, and no clone command is run but for them.
\<close>

theorem limit_zero_is_no_limit:
  assumes m: "manifests st f = Some urls0"
  shows "download_github_sources c here (Some f) (Some 0) st
           = download_github_sources c here (Some f) None st
       \<and> cloned (snd (download_github_sources c here (Some f) (Some 0) st))
           = cloned (clone_repos c (clone_root_dir here) urls0 st)
       \<and> repos (snd (download_github_sources c here (Some f) (Some 0) st))
           = repos (clone_repos c (clone_root_dir here) urls0 st)
       \<and> (\<forall>url \<in> set urls0.
             clone_dir_exists (snd (download_github_sources c here (Some f) (Some 0) st))
               (basename url)
             \<or> (url, join (clone_root_dir here) (basename url))
                  \<in> set (cloned (snd (download_github_sources c here (Some f) (Some 0) st))))
       \<and> (\<forall>k. 0 < k \<longrightarrow>
             cloned (snd (download_github_sources c here (Some f) (Some k) st))
               = cloned (clone_repos c (clone_root_dir here) (take (nat k) urls0) st)
             \<and> repos (snd (download_github_sources c here (Some f) (Some k) st))
               = repos (clone_repos c (clone_root_dir here) (take (nat k) urls0) st)
             \<and> (\<forall>url \<in> set (take (nat k) urls0).
                   clone_dir_exists (snd (download_github_sources c here (Some f) (Some k) st))
                     (basename url)
                   \<or> (url, join (clone_root_dir here) (basename url))
                        \<in> set (cloned (snd (download_github_sources c here (Some f) (Some k) st))))
             \<and> set (cloned (snd (download_github_sources c here (Some f) (Some k) st)))
                 \<subseteq> set (cloned st)
                    \<union> (\<lambda>url. (url, join (clone_root_dir here) (basename url)))
                        ` set (take (nat k) urls0))"
proof -
  have run_clones:
    "cloned (snd (download_github_sources c here (Some f) lim st))
       = cloned (clone_repos c (clone_root_dir here) (apply_limit lim urls0) st)
     \<and> repos (snd (download_github_sources c here (Some f) lim st))
       = repos (clone_repos c (clone_root_dir here) (apply_limit lim urls0) st)" for lim
  proof -
    let ?st1 = "clone_repos c (clone_root_dir here) (apply_limit lim urls0) st"
    obtain r2 st2 where cr:
      "convert_repos c (clone_root_dir here) (jsonl_dir here) (repos ?st1) ?st1 = (r2, st2)"
      by (cases "convert_repos c (clone_root_dir here) (jsonl_dir here) (repos ?st1) ?st1")
    have "download_github_sources c here (Some f) lim st
            = (case r2 of Inl e \<Rightarrow> (Inl e, st2) | Inr u \<Rightarrow> (Inr (jsonl_dir here), st2))"
      using m cr by (simp add: download_github_sources_def Let_def)
    then have "snd (download_github_sources c here (Some f) lim st) = st2"
      by (cases r2) simp_all
    with convert_repos_frame [OF cr] show ?thesis by simp
  qed
  have run_attempts:
    "\<forall>url \<in> set (apply_limit lim urls0).
       clone_dir_exists (snd (download_github_sources c here (Some f) lim st)) (basename url)
       \<or> (url, join (clone_root_dir here) (basename url))
            \<in> set (cloned (snd (download_github_sources c here (Some f) lim st)))" for lim
  proof -
    let ?st1 = "clone_repos c (clone_root_dir here) (apply_limit lim urls0) st"
    let ?s = "snd (download_github_sources c here (Some f) lim st)"
    from run_clones [of lim]
    have cl: "cloned ?s = cloned ?st1" and r: "repos ?s = repos ?st1" by simp_all
    have ex: "clone_dir_exists ?s x = clone_dir_exists ?st1 x" for x
      using r by (simp add: clone_dir_exists_def)
    from clone_repos_attempts [of "apply_limit lim urls0" c "clone_root_dir here" st] cl ex
    show ?thesis by simp
  qed
  have z: "apply_limit (Some 0) urls0 = urls0" by (simp add: apply_limit_def)
  have p1: "download_github_sources c here (Some f) (Some 0) st
              = download_github_sources c here (Some f) None st"
    unfolding download_github_sources_def apply_limit_zero by (rule refl)
  from run_clones [of "Some 0"] z
  have p2: "cloned (snd (download_github_sources c here (Some f) (Some 0) st))
              = cloned (clone_repos c (clone_root_dir here) urls0 st)"
    and p3: "repos (snd (download_github_sources c here (Some f) (Some 0) st))
              = repos (clone_repos c (clone_root_dir here) urls0 st)"
    by simp_all
  from run_attempts [of "Some 0"] z
  have p4: "\<forall>url \<in> set urls0.
             clone_dir_exists (snd (download_github_sources c here (Some f) (Some 0) st))
               (basename url)
             \<or> (url, join (clone_root_dir here) (basename url))
                  \<in> set (cloned (snd (download_github_sources c here (Some f) (Some 0) st)))"
    by simp
  have p5: "cloned (snd (download_github_sources c here (Some f) (Some k) st))
               = cloned (clone_repos c (clone_root_dir here) (take (nat k) urls0) st)
             \<and> repos (snd (download_github_sources c here (Some f) (Some k) st))
               = repos (clone_repos c (clone_root_dir here) (take (nat k) urls0) st)
             \<and> (\<forall>url \<in> set (take (nat k) urls0).
                   clone_dir_exists (snd (download_github_sources c here (Some f) (Some k) st))
                     (basename url)
                   \<or> (url, join (clone_root_dir here) (basename url))
                        \<in> set (cloned (snd (download_github_sources c here (Some f) (Some k) st))))
             \<and> set (cloned (snd (download_github_sources c here (Some f) (Some k) st)))
                 \<subseteq> set (cloned st)
                    \<union> (\<lambda>url. (url, join (clone_root_dir here) (basename url)))
                        ` set (take (nat k) urls0)"
    if k: "0 < k" for k
  proof -
    from k have t: "apply_limit (Some k) urls0 = take (nat k) urls0"
      by (simp add: apply_limit_def)
    from run_clones [of "Some k"] t
    have a: "cloned (snd (download_github_sources c here (Some f) (Some k) st))
               = cloned (clone_repos c (clone_root_dir here) (take (nat k) urls0) st)"
      and b: "repos (snd (download_github_sources c here (Some f) (Some k) st))
               = repos (clone_repos c (clone_root_dir here) (take (nat k) urls0) st)"
      by simp_all
    from run_attempts [of "Some k"] t
    have d: "\<forall>url \<in> set (take (nat k) urls0).
                   clone_dir_exists (snd (download_github_sources c here (Some f) (Some k) st))
                     (basename url)
                   \<or> (url, join (clone_root_dir here) (basename url))
                        \<in> set (cloned (snd (download_github_sources c here (Some f) (Some k) st)))"
      by simp
    from clone_repos_cloned_only [of c "clone_root_dir here" "take (nat k) urls0" st] a
    have e: "set (cloned (snd (download_github_sources c here (Some f) (Some k) st)))
                 \<subseteq> set (cloned st)
                    \<union> (\<lambda>url. (url, join (clone_root_dir here) (basename url)))
                        ` set (take (nat k) urls0)"
      by simp
    from a b d e show ?thesis by (intro conjI)
  qed
  have p5': "\<forall>k. 0 < k \<longrightarrow>
             cloned (snd (download_github_sources c here (Some f) (Some k) st))
               = cloned (clone_repos c (clone_root_dir here) (take (nat k) urls0) st)
             \<and> repos (snd (download_github_sources c here (Some f) (Some k) st))
               = repos (clone_repos c (clone_root_dir here) (take (nat k) urls0) st)
             \<and> (\<forall>url \<in> set (take (nat k) urls0).
                   clone_dir_exists (snd (download_github_sources c here (Some f) (Some k) st))
                     (basename url)
                   \<or> (url, join (clone_root_dir here) (basename url))
                        \<in> set (cloned (snd (download_github_sources c here (Some f) (Some k) st))))
             \<and> set (cloned (snd (download_github_sources c here (Some f) (Some k) st)))
                 \<subseteq> set (cloned st)
                    \<union> (\<lambda>url. (url, join (clone_root_dir here) (basename url)))
                        ` set (take (nat k) urls0)"
  proof (intro allI impI)
    fix k :: int
    assume "0 < k"
    then show "cloned (snd (download_github_sources c here (Some f) (Some k) st))
               = cloned (clone_repos c (clone_root_dir here) (take (nat k) urls0) st)
             \<and> repos (snd (download_github_sources c here (Some f) (Some k) st))
               = repos (clone_repos c (clone_root_dir here) (take (nat k) urls0) st)
             \<and> (\<forall>url \<in> set (take (nat k) urls0).
                   clone_dir_exists (snd (download_github_sources c here (Some f) (Some k) st))
                     (basename url)
                   \<or> (url, join (clone_root_dir here) (basename url))
                        \<in> set (cloned (snd (download_github_sources c here (Some f) (Some k) st))))
             \<and> set (cloned (snd (download_github_sources c here (Some f) (Some k) st)))
                 \<subseteq> set (cloned st)
                    \<union> (\<lambda>url. (url, join (clone_root_dir here) (basename url)))
                        ` set (take (nat k) urls0)"
      by (rule p5)
  qed
  from p1 p2 p3 p4 p5' show ?thesis by (intro conjI)
qed

text \<open>
  C10 on a manifest of three entries: with the limit \<open>0\<close> all three clone commands are
  run, with the limit \<open>2\<close> the first two, and the third repository is neither cloned
  nor listed.
\<close>

theorem limit_zero_is_no_limit_witness:
  "manifests ex_state ''m'' = Some [''octocat/one'', ''octocat/missing'', ''octocat/three'']
   \<and> download_github_sources ex_collab ''h'' (Some ''m'') (Some 0) ex_state
        = download_github_sources ex_collab ''h'' (Some ''m'') None ex_state
   \<and> cloned (snd (download_github_sources ex_collab ''h'' (Some ''m'') (Some 0) ex_state))
        = [(''octocat/one'', ''h/data/raw/github/repos/one''),
           (''octocat/missing'', ''h/data/raw/github/repos/missing''),
           (''octocat/three'', ''h/data/raw/github/repos/three'')]
   \<and> (0::int) < 2
   \<and> cloned (snd (download_github_sources ex_collab ''h'' (Some ''m'') (Some 2) ex_state))
        = [(''octocat/one'', ''h/data/raw/github/repos/one''),
           (''octocat/missing'', ''h/data/raw/github/repos/missing'')]
   \<and> map entry_name
          (repos (snd (download_github_sources ex_collab ''h'' (Some ''m'') (Some 2) ex_state)))
        = [''one'']
   \<and> (''octocat/three'', ''h/data/raw/github/repos/three'')
        \<notin> set (cloned (snd (download_github_sources ex_collab ''h'' (Some ''m'') (Some 2) ex_state)))"
proof -
  let ?urls = "[''octocat/one'', ''octocat/missing'', ''octocat/three'']"
  have m: "manifests ex_state ''m'' = Some ?urls" by (simp add: ex_state_def)
  have h: "(0::int) < 2" by simp
  note t = limit_zero_is_no_limit [OF m, of ex_collab "''h''"]
  note t1 = t [THEN conjunct1]
  note t2 = t [THEN conjunct2, THEN conjunct1]
  note tk = t [THEN conjunct2, THEN conjunct2, THEN conjunct2, THEN conjunct2,
               THEN spec, of 2, THEN mp, OF h]
  have e0: "cloned (clone_repos ex_collab (clone_root_dir ''h'') ?urls ex_state)
              = [(''octocat/one'', ''h/data/raw/github/repos/one''),
                 (''octocat/missing'', ''h/data/raw/github/repos/missing''),
                 (''octocat/three'', ''h/data/raw/github/repos/three'')]"
    by code_simp
  have e2: "cloned (clone_repos ex_collab (clone_root_dir ''h'') (take (nat 2) ?urls) ex_state)
              = [(''octocat/one'', ''h/data/raw/github/repos/one''),
                 (''octocat/missing'', ''h/data/raw/github/repos/missing'')]"
    by code_simp
  have r2: "map entry_name
              (repos (clone_repos ex_collab (clone_root_dir ''h'') (take (nat 2) ?urls) ex_state))
              = [''one'']"
    by code_simp
  from t2 e0
  have c0: "cloned (snd (download_github_sources ex_collab ''h'' (Some ''m'') (Some 0) ex_state))
        = [(''octocat/one'', ''h/data/raw/github/repos/one''),
           (''octocat/missing'', ''h/data/raw/github/repos/missing''),
           (''octocat/three'', ''h/data/raw/github/repos/three'')]"
    by (simp only:)
  from tk [THEN conjunct1] e2
  have c2: "cloned (snd (download_github_sources ex_collab ''h'' (Some ''m'') (Some 2) ex_state))
        = [(''octocat/one'', ''h/data/raw/github/repos/one''),
           (''octocat/missing'', ''h/data/raw/github/repos/missing'')]"
    by (simp only:)
  from tk [THEN conjunct2, THEN conjunct1] r2
  have n2: "map entry_name
          (repos (snd (download_github_sources ex_collab ''h'' (Some ''m'') (Some 2) ex_state)))
        = [''one'']"
    by (simp only:)
  have direct:
    "cloned (snd (download_github_sources ex_collab ''h'' (Some ''m'') (Some 2) ex_state))
        = [(''octocat/one'', ''h/data/raw/github/repos/one''),
           (''octocat/missing'', ''h/data/raw/github/repos/missing'')]"
    by code_simp
  have x: "(''octocat/three'', ''h/data/raw/github/repos/three'')
        \<notin> set (cloned (snd (download_github_sources ex_collab ''h'' (Some ''m'') (Some 2) ex_state)))"
    unfolding direct by simp
  from m t1 c0 h c2 n2 x show ?thesis by (intro conjI)
qed

end
